theory Spec2Isabelle
  imports Main "HOL-Library.Word"
begin

section \<open>JavaScript strings and numbers\<close>

text \<open>
  A JavaScript string is a sequence of UTF-16 code units.  The distinction matters for
  this module: \<open>btoa\<close> accepts only code units up to \<open>0xFF\<close>, and \<open>JSON.stringify\<close>
  leaves every other code unit of a well-formed string as it is.
\<close>

type_synonym jsstring = "16 word list"

definition str :: "string \<Rightarrow> jsstring" where
  "str s = map of_char s"

text \<open>\<open>xs.join(sep)\<close> on a list of strings.\<close>

fun join :: "jsstring \<Rightarrow> jsstring list \<Rightarrow> jsstring" where
  "join sep [] = []"
| "join sep [x] = x"
| "join sep (x # y # ys) = x @ sep @ join sep (y # ys)"

text \<open>
  The model's numbers are the integers; an integer stands for the Number nearest to it.
  Up to \<open>2^53\<close> every integer is a Number and \<open>Number::toString\<close> prints its decimal
  digits, which covers every time value of a valid \<open>Date\<close>.
\<close>

definition digit :: "nat \<Rightarrow> 16 word" where
  "digit d = of_nat (48 + d)"

fun decimal :: "nat \<Rightarrow> jsstring" where
  "decimal n = (if n < 10 then [digit n] else decimal (n div 10) @ [digit (n mod 10)])"

declare decimal.simps [simp del]

text \<open>
  Beyond \<open>2^53\<close> the Number value of an integer keeps its 53 leading bits, rounded to
  nearest with ties to even, and a magnitude that rounds to \<open>2^1024\<close> or more is infinite.
  \<open>Number::toString\<close> of ECMA-262 then takes the shortest digit string \<open>s\<close> and the
  exponent \<open>n\<close> for which \<open>s\<close> times a power of ten has that Number value (the nearest
  such \<open>s\<close>, the even one of two), and prints the digits followed by zeros while
  \<open>n\<close> is at most 21, and in exponent notation beyond.
\<close>

fun bits :: "nat \<Rightarrow> nat" where
  "bits n = (if n = 0 then 0 else Suc (bits (n div 2)))"

declare bits.simps [simp del]

definition NumberValue :: "nat \<Rightarrow> nat" where
  "NumberValue m =
     (if bits m \<le> 53 then m
      else let q = 2 ^ (bits m - 53); lo = m div q; r = m mod q
           in if 2 * r < q \<or> (2 * r = q \<and> even lo) then lo * q else (lo + 1) * q)"

function ShortestDigits :: "nat \<Rightarrow> nat \<Rightarrow> nat \<Rightarrow> nat \<times> nat" where
  "ShortestDigits x d k =
     (if d \<le> k then (x, d)
      else let P = 10 ^ (d - k); s0 = x div P; lo = s0 * P; hi = (s0 + 1) * P
           in if NumberValue lo = x
                 \<and> (NumberValue hi \<noteq> x \<or> x - lo < hi - x \<or> (x - lo = hi - x \<and> even s0))
              then (s0, d)
              else if NumberValue hi = x
              then (if s0 + 1 = 10 ^ k then (1, Suc d) else (s0 + 1, d))
              else ShortestDigits x d (Suc k))"
  by pat_completeness auto
termination
  by (relation "measure (\<lambda>(x, d, k). d - k)") auto

declare ShortestDigits.simps [simp del]

definition FormatDigits :: "nat \<Rightarrow> nat \<Rightarrow> jsstring" where
  "FormatDigits s n =
     (if n \<le> 21 then decimal s @ replicate (n - length (decimal s)) 0x30
      else if length (decimal s) = 1 then decimal s @ str ''e+'' @ decimal (n - 1)
      else take 1 (decimal s) @ str ''.'' @ drop 1 (decimal s) @ str ''e+'' @ decimal (n - 1))"

definition Number_digits :: "nat \<Rightarrow> jsstring" where
  "Number_digits m =
     (if m < 9007199254740992 then decimal m
      else if 2 ^ 1024 \<le> NumberValue m then str ''Infinity''
      else case ShortestDigits (NumberValue m) (length (decimal (NumberValue m))) 1 of
             (s, n) \<Rightarrow> FormatDigits s n)"

definition Number_toString :: "int \<Rightarrow> jsstring" where
  "Number_toString n = (if n < 0 then str ''-'' else []) @ Number_digits (nat \<bar>n\<bar>)"

definition isFinite :: "int \<Rightarrow> bool" where
  "isFinite n \<longleftrightarrow> \<bar>n\<bar> < 9007199254740992 \<or> NumberValue (nat \<bar>n\<bar>) < 2 ^ 1024"

text \<open>A Number that may be \<open>NaN\<close> (\<open>None\<close>), as the getters of an invalid \<open>Date\<close> return.\<close>

definition ToString_number :: "int option \<Rightarrow> jsstring" where
  "ToString_number n = (case n of None \<Rightarrow> str ''NaN'' | Some k \<Rightarrow> Number_toString k)"

section \<open>JavaScript values and \<open>JSON.stringify\<close>\<close>

text \<open>
  The values a request can hold.  \<open>BaseSong\<close> is declared outside this module, so a song
  is an arbitrary value; \<open>JUndefined\<close> is what \<open>songs[0]\<close> yields on an empty array.
\<close>

datatype jsval =
    JUndefined
  | JNull
  | JBool bool
  | JNum int
  | JStr jsstring
  | JArr "jsval list"
  | JObj "(jsstring \<times> jsval) list"

definition hexdigit :: "nat \<Rightarrow> 16 word" where
  "hexdigit d = (if d < 10 then of_nat (48 + d) else of_nat (87 + d))"

text \<open>\<open>UnicodeEscape\<close>: backslash, \<open>u\<close> and four lower-case hexadecimal digits.\<close>

definition UnicodeEscape :: "16 word \<Rightarrow> jsstring" where
  "UnicodeEscape c =
     (let n = unat c in
      [0x5C, 0x75, hexdigit (n div 4096), hexdigit (n div 256 mod 16),
       hexdigit (n div 16 mod 16), hexdigit (n mod 16)])"

definition is_leading_surrogate :: "16 word \<Rightarrow> bool" where
  "is_leading_surrogate c \<longleftrightarrow> 0xD800 \<le> c \<and> c \<le> 0xDBFF"

definition is_trailing_surrogate :: "16 word \<Rightarrow> bool" where
  "is_trailing_surrogate c \<longleftrightarrow> 0xDC00 \<le> c \<and> c \<le> 0xDFFF"

text \<open>
  The body of \<open>QuoteJSONString\<close>: the two-character escapes, \<open>\\uXXXX\<close> for the other
  control characters and for lone surrogates, every other code point unchanged
  (a surrogate pair stays a pair).
\<close>

fun quote_units :: "jsstring \<Rightarrow> jsstring" where
  "quote_units [] = []"
| "quote_units (c # cs) =
     (if c = 0x08 then [0x5C, 0x62] @ quote_units cs
      else if c = 0x09 then [0x5C, 0x74] @ quote_units cs
      else if c = 0x0A then [0x5C, 0x6E] @ quote_units cs
      else if c = 0x0C then [0x5C, 0x66] @ quote_units cs
      else if c = 0x0D then [0x5C, 0x72] @ quote_units cs
      else if c = 0x22 then [0x5C, 0x22] @ quote_units cs
      else if c = 0x5C then [0x5C, 0x5C] @ quote_units cs
      else if c < 0x20 then UnicodeEscape c @ quote_units cs
      else if is_leading_surrogate c then
        (case cs of
           [] \<Rightarrow> UnicodeEscape c
         | d # ds \<Rightarrow>
             if is_trailing_surrogate d then c # d # quote_units ds
             else UnicodeEscape c @ quote_units cs)
      else if is_trailing_surrogate c then UnicodeEscape c @ quote_units cs
      else c # quote_units cs)"

definition QuoteJSONString :: "jsstring \<Rightarrow> jsstring" where
  "QuoteJSONString s = [0x22] @ quote_units s @ [0x22]"

text \<open>
  \<open>SerializeJSONProperty\<close>, \<open>SerializeJSONArray\<close> and \<open>SerializeJSONObject\<close> of
  ECMA-262, with the gap and the current indentation as arguments.  \<open>None\<close> is the
  result \<open>undefined\<close>: a property holding it is left out of an object, an array element
  holding it is printed as \<open>null\<close>, and so is a number that is not finite.
\<close>

definition wrap_partial ::
  "16 word \<Rightarrow> 16 word \<Rightarrow> jsstring \<Rightarrow> jsstring \<Rightarrow> jsstring list \<Rightarrow> jsstring" where
  "wrap_partial opn cls gap stepback partial =
     (if partial = [] then [opn, cls]
      else if gap = [] then [opn] @ join (str '','') partial @ [cls]
      else [opn, 0x0A] @ (stepback @ gap)
           @ join ([0x2C, 0x0A] @ (stepback @ gap)) partial
           @ [0x0A] @ stepback @ [cls])"

fun SerializeJSONProperty :: "jsstring \<Rightarrow> jsstring \<Rightarrow> jsval \<Rightarrow> jsstring option"
  and SerializeJSONElements :: "jsstring \<Rightarrow> jsstring \<Rightarrow> jsval list \<Rightarrow> jsstring list"
  and SerializeJSONMembers ::
    "jsstring \<Rightarrow> jsstring \<Rightarrow> (jsstring \<times> jsval) list \<Rightarrow> jsstring list"
where
  "SerializeJSONProperty gap indent JUndefined = None"
| "SerializeJSONProperty gap indent JNull = Some (str ''null'')"
| "SerializeJSONProperty gap indent (JBool b) = Some (if b then str ''true'' else str ''false'')"
| "SerializeJSONProperty gap indent (JNum n) =
     Some (if isFinite n then Number_toString n else str ''null'')"
| "SerializeJSONProperty gap indent (JStr s) = Some (QuoteJSONString s)"
| "SerializeJSONProperty gap indent (JArr vs) =
     Some (wrap_partial 0x5B 0x5D gap indent (SerializeJSONElements gap (indent @ gap) vs))"
| "SerializeJSONProperty gap indent (JObj kvs) =
     Some (wrap_partial 0x7B 0x7D gap indent (SerializeJSONMembers gap (indent @ gap) kvs))"
| "SerializeJSONElements gap indent [] = []"
| "SerializeJSONElements gap indent (v # vs) =
     (case SerializeJSONProperty gap indent v of
        None \<Rightarrow> str ''null''
      | Some s \<Rightarrow> s) # SerializeJSONElements gap indent vs"
| "SerializeJSONMembers gap indent [] = []"
| "SerializeJSONMembers gap indent ((k, v) # kvs) =
     (case SerializeJSONProperty gap indent v of
        None \<Rightarrow> SerializeJSONMembers gap indent kvs
      | Some s \<Rightarrow>
          (QuoteJSONString k @ str '':'' @ (if gap = [] then [] else str '' '') @ s)
            # SerializeJSONMembers gap indent kvs)"

text \<open>
  \<open>JSON.stringify(value)\<close> and \<open>JSON.stringify(value, null, 2)\<close>, the latter with a gap
  of two spaces.  The template literal and \<open>btoa\<close> apply \<open>ToString\<close> to the result.
\<close>

definition JSON_stringify :: "jsval \<Rightarrow> jsstring option" where
  "JSON_stringify v = SerializeJSONProperty [] [] v"

definition JSON_stringify_2 :: "jsval \<Rightarrow> jsstring option" where
  "JSON_stringify_2 v = SerializeJSONProperty (str ''  '') [] v"

definition ToString_opt :: "jsstring option \<Rightarrow> jsstring" where
  "ToString_opt s = (case s of None \<Rightarrow> str ''undefined'' | Some t \<Rightarrow> t)"

section \<open>\<open>btoa\<close>\<close>

datatype exn =
    Error jsstring
  | InvalidCharacterError
  | NetworkError
  | TimeoutError

definition base64_alphabet :: string where
  "base64_alphabet = ''ABCDEFGHIJKLMNOPQRSTUVWXYZabcdefghijklmnopqrstuvwxyz0123456789+/''"

definition base64_char :: "nat \<Rightarrow> 16 word" where
  "base64_char n = of_char (base64_alphabet ! (n mod 64))"

text \<open>Base64 with padding (RFC 4648) of a sequence of bytes.\<close>

fun base64_encode :: "nat list \<Rightarrow> jsstring" where
  "base64_encode (a # b # c # rest) =
     [base64_char (a div 4), base64_char ((a mod 4) * 16 + b div 16),
      base64_char ((b mod 16) * 4 + c div 64), base64_char (c mod 64)]
     @ base64_encode rest"
| "base64_encode [a, b] =
     [base64_char (a div 4), base64_char ((a mod 4) * 16 + b div 16),
      base64_char ((b mod 16) * 4), 0x3D]"
| "base64_encode [a] =
     [base64_char (a div 4), base64_char ((a mod 4) * 16), 0x3D, 0x3D]"
| "base64_encode [] = []"

text \<open>
  \<open>btoa(data)\<close> of the HTML standard: it throws an \<open>InvalidCharacterError\<close> when the
  string holds a code unit above \<open>0xFF\<close>, and otherwise encodes the code units as bytes.
\<close>

definition btoa :: "jsstring \<Rightarrow> exn + jsstring" where
  "btoa s =
     (if \<exists>c \<in> set s. 0xFF < c then Inl InvalidCharacterError
      else Inr (base64_encode (map unat s)))"

text \<open>
  \<open>atob(data)\<close> of the HTML standard (forgiving Base64 decoding): ASCII whitespace is
  removed, up to two padding characters are removed when the length is a multiple of
  four, a remaining length of one more than a multiple of four or a character outside the
  alphabet is an error, and every group of four characters gives three bytes (a last
  group of three or two characters gives two bytes or one).
\<close>

definition base64_index :: "16 word \<Rightarrow> nat option" where
  "base64_index c =
     (if 0x41 \<le> c \<and> c \<le> 0x5A then Some (unat c - 65)
      else if 0x61 \<le> c \<and> c \<le> 0x7A then Some (unat c - 71)
      else if 0x30 \<le> c \<and> c \<le> 0x39 then Some (unat c + 4)
      else if c = 0x2B then Some 62
      else if c = 0x2F then Some 63
      else None)"

fun base64_decode :: "nat list \<Rightarrow> nat list" where
  "base64_decode (a # b # c # d # rest) =
     [a * 4 + b div 16, (b mod 16) * 16 + c div 4, (c mod 4) * 64 + d] @ base64_decode rest"
| "base64_decode [a, b, c] = [a * 4 + b div 16, (b mod 16) * 16 + c div 4]"
| "base64_decode [a, b] = [a * 4 + b div 16]"
| "base64_decode [a] = []"
| "base64_decode [] = []"

definition is_ascii_whitespace :: "16 word \<Rightarrow> bool" where
  "is_ascii_whitespace c \<longleftrightarrow> c = 0x09 \<or> c = 0x0A \<or> c = 0x0C \<or> c = 0x0D \<or> c = 0x20"

definition strip_padding :: "jsstring \<Rightarrow> jsstring" where
  "strip_padding s =
     (if length s mod 4 = 0 then
        (if 2 \<le> length s \<and> drop (length s - 2) s = [0x3D, 0x3D] then take (length s - 2) s
         else if 1 \<le> length s \<and> drop (length s - 1) s = [0x3D] then take (length s - 1) s
         else s)
      else s)"

definition atob :: "jsstring \<Rightarrow> exn + jsstring" where
  "atob s =
     (let t = strip_padding (filter (\<lambda>c. \<not> is_ascii_whitespace c) s)
      in if length t mod 4 = 1 \<or> (\<exists>c \<in> set t. base64_index c = None)
         then Inl InvalidCharacterError
         else Inr (map of_nat (base64_decode (List.map_filter base64_index t))))"

text \<open>
  The six-bit groups and the padding that \<open>base64_encode\<close> produces, separately.
\<close>

fun sextets :: "nat list \<Rightarrow> nat list" where
  "sextets (a # b # c # rest) =
     [a div 4, (a mod 4) * 16 + b div 16, (b mod 16) * 4 + c div 64, c mod 64] @ sextets rest"
| "sextets [a, b] = [a div 4, (a mod 4) * 16 + b div 16, (b mod 16) * 4]"
| "sextets [a] = [a div 4, (a mod 4) * 16]"
| "sextets [] = []"

fun padding :: "nat list \<Rightarrow> jsstring" where
  "padding (a # b # c # rest) = padding rest"
| "padding [a, b] = [0x3D]"
| "padding [a] = [0x3D, 0x3D]"
| "padding [] = []"

section \<open>\<open>String.prototype.split\<close> and \<open>String.prototype.replace\<close>\<close>

text \<open>\<open>s.split(sep)\<close> for a separator of one code unit; the result is never empty.\<close>

fun split :: "16 word \<Rightarrow> jsstring \<Rightarrow> jsstring list" where
  "split sep [] = [[]]"
| "split sep (c # cs) =
     (if c = sep then [] # split sep cs
      else (case split sep cs of
              [] \<Rightarrow> [[c]]
            | x # xs \<Rightarrow> (c # x) # xs))"

text \<open>
  \<open>xs[i]\<close> reads \<open>undefined\<close> past the end, and \<open>replace\<close> applies \<open>ToString\<close> to its
  second argument.
\<close>

definition index :: "jsstring list \<Rightarrow> nat \<Rightarrow> jsstring option" where
  "index xs i = (if i < length xs then Some (xs ! i) else None)"

fun indexOf :: "jsstring \<Rightarrow> jsstring \<Rightarrow> nat option" where
  "indexOf pat [] = (if pat = [] then Some 0 else None)"
| "indexOf pat (c # cs) =
     (if take (length pat) (c # cs) = pat then Some 0
      else map_option Suc (indexOf pat cs))"

text \<open>
  \<open>GetSubstitution\<close> for a string pattern (no captures): in the replacement text
  \<open>$$\<close> is a dollar sign, \<open>$&\<close> the matched text, \<open>$`\<close> the text preceding the match and
  \<open>$'\<close> the text following it; any other dollar sign stands for itself.
\<close>

fun GetSubstitution :: "jsstring \<Rightarrow> jsstring \<Rightarrow> jsstring \<Rightarrow> jsstring \<Rightarrow> jsstring" where
  "GetSubstitution matched preceding following [] = []"
| "GetSubstitution matched preceding following [c] = [c]"
| "GetSubstitution matched preceding following (c # d # cs) =
     (if c = 0x24 \<and> d = 0x24 then 0x24 # GetSubstitution matched preceding following cs
      else if c = 0x24 \<and> d = 0x26 then matched @ GetSubstitution matched preceding following cs
      else if c = 0x24 \<and> d = 0x60 then preceding @ GetSubstitution matched preceding following cs
      else if c = 0x24 \<and> d = 0x27 then following @ GetSubstitution matched preceding following cs
      else c # GetSubstitution matched preceding following (d # cs))"

text \<open>\<open>s.replace(pat, rep)\<close> with a string pattern: only the first occurrence.\<close>

definition replace :: "jsstring \<Rightarrow> jsstring \<Rightarrow> jsstring option \<Rightarrow> jsstring" where
  "replace s pat rep =
     (case indexOf pat s of
        None \<Rightarrow> s
      | Some i \<Rightarrow>
          (let preceding = take i s; following = drop (i + length pat) s
           in preceding @ GetSubstitution pat preceding following (ToString_opt rep) @ following))"

text \<open>
  A replacement text is copied as it is when none of these patterns occurs in it: no
  dollar sign is immediately followed by a dollar sign, an ampersand, a backquote or an
  apostrophe.
\<close>

fun no_replacement_pattern :: "jsstring \<Rightarrow> bool" where
  "no_replacement_pattern (c # d # cs) =
     (\<not> (c = 0x24 \<and> (d = 0x24 \<or> d = 0x26 \<or> d = 0x60 \<or> d = 0x27))
      \<and> no_replacement_pattern (d # cs))"
| "no_replacement_pattern [c] = True"
| "no_replacement_pattern [] = True"

section \<open>\<open>Date\<close>\<close>

text \<open>
  The time value of \<open>new Date(t)\<close> for an integral \<open>t\<close>: \<open>TimeClip\<close> yields \<open>NaN\<close>
  (\<open>None\<close>, an invalid date) beyond 8.64e15 milliseconds on either side of the epoch.
\<close>

definition TimeClip :: "int \<Rightarrow> int option" where
  "TimeClip t = (if \<bar>t\<bar> > 8640000000000000 then None else Some t)"

definition msPerDay :: int where
  "msPerDay = 86400000"

definition Day :: "int \<Rightarrow> int" where
  "Day t = t div msPerDay"

definition DaysInYear :: "int \<Rightarrow> int" where
  "DaysInYear y =
     (if y mod 4 \<noteq> 0 then 365
      else if y mod 100 \<noteq> 0 then 366
      else if y mod 400 \<noteq> 0 then 365
      else 366)"

definition DayFromYear :: "int \<Rightarrow> int" where
  "DayFromYear y =
     365 * (y - 1970) + (y - 1969) div 4 - (y - 1901) div 100 + (y - 1601) div 400"

text \<open>
  \<open>YearFromTime(t)\<close> is the largest \<open>y\<close> with \<open>DayFromYear y \<le> Day t\<close>.  It is computed
  here from the day number counted from 1 January 1601, the first day of a 400-year
  cycle: whole cycles, then centuries, four-year groups and years within the cycle
  (the last century and the last year of a group are one day longer).
\<close>

definition YearFromDay :: "int \<Rightarrow> int" where
  "YearFromDay d =
     (let n = d + 134774;
          cycles = n div 146097;
          r = n mod 146097;
          c = min (r div 36524) 3;
          r2 = r - c * 36524;
          q = r2 div 1461;
          r3 = r2 - q * 1461;
          a = min (r3 div 365) 3
      in 1601 + 400 * cycles + 100 * c + 4 * q + a)"

definition YearFromTime :: "int \<Rightarrow> int" where
  "YearFromTime t = YearFromDay (Day t)"

definition InLeapYear :: "int \<Rightarrow> int" where
  "InLeapYear t = (if DaysInYear (YearFromTime t) = 366 then 1 else 0)"

definition DayWithinYear :: "int \<Rightarrow> int" where
  "DayWithinYear t = Day t - DayFromYear (YearFromTime t)"

definition MonthFromTime :: "int \<Rightarrow> int" where
  "MonthFromTime t =
     (let d = DayWithinYear t; l = InLeapYear t
      in if d < 31 then 0
         else if d < 59 + l then 1
         else if d < 90 + l then 2
         else if d < 120 + l then 3
         else if d < 151 + l then 4
         else if d < 181 + l then 5
         else if d < 212 + l then 6
         else if d < 243 + l then 7
         else if d < 273 + l then 8
         else if d < 304 + l then 9
         else if d < 334 + l then 10
         else 11)"

definition WeekDay :: "int \<Rightarrow> int" where
  "WeekDay t = (Day t + 4) mod 7"



definition days_to :: "int \<Rightarrow> int" where
  "days_to yy = 365 * yy + yy div 4 - yy div 100 + yy div 400"

text \<open>The getters of a \<open>Date\<close> object, whose state is its time value.\<close>

definition new_Date :: "int \<Rightarrow> int option" where
  "new_Date t = TimeClip t"

definition getUTCFullYear :: "int option \<Rightarrow> int option" where
  "getUTCFullYear d = map_option YearFromTime d"

definition getUTCMonth :: "int option \<Rightarrow> int option" where
  "getUTCMonth d = map_option MonthFromTime d"

definition getUTCDay :: "int option \<Rightarrow> int option" where
  "getUTCDay d = map_option WeekDay d"

definition getTime :: "int option \<Rightarrow> int option" where
  "getTime d = d"

section \<open>Requests, destinations and the environment\<close>

text \<open>
  \<open>GitHubRequest\<close> and its \<open>data\<close> object.  An optional property is \<open>None\<close> when the
  caller's object literal does not mention it.  The time is an integral Number, as
  \<open>Date.now()\<close> returns it.
\<close>

record request_data =
  song :: jsval
  songs :: "jsval list option"
  isLoved :: "bool option"
  currentlyPlaying :: "bool option"

record GitHubRequest =
  eventName :: jsstring
  time :: int
  data :: request_data

text \<open>
  One entry of \<open>this.arrayProperties\<close>, with the two user-defined properties that
  \<open>getUserDefinedArrayProperties\<close> names; the scrobbler object with the two fields of
  the base class that this module reads.  \<open>arrayProperties\<close> may be absent.
\<close>

record props =
  applicationName :: jsstring
  userApiUrl :: jsstring

record scrobbler =
  arrayProperties :: "props list option"
  REQUEST_TIMEOUT :: nat

datatype ServiceCallResult = RESULT_OK | ERROR_AUTH | ERROR_OTHER

record SessionData =
  sessionID :: jsstring

text \<open>The second argument of \<open>fetch\<close>, and the two fields of a \<open>Response\<close> that are read.\<close>

record requestInit =
  "method" :: jsstring
  headers :: "(jsstring \<times> jsstring) list"
  body :: jsstring

record response =
  status :: int
  url :: jsstring

text \<open>
  The fate of a promise: fulfilled or rejected at some time (in milliseconds after the
  call), or never settled.  The network is an oracle that gives the fate of the \<open>i\<close>-th
  \<open>fetch\<close> of a call from its arguments.
\<close>

datatype 'a promise = Fulfilled nat 'a | Rejected nat exn | Pending

type_synonym network = "nat \<Rightarrow> jsstring \<Rightarrow> requestInit \<Rightarrow> response promise"

text \<open>
  What a call does besides returning: it enters \<open>sendRequest\<close> with a request, writes a
  line with \<open>debugLog\<close> (message and optional level), or calls \<open>fetch\<close>.  Both
  \<open>debugLog\<close> of the base class and \<open>fetch\<close> are outside this module; an event records
  the arguments they are called with.
\<close>

datatype event =
    Dispatch GitHubRequest
  | DebugLog jsstring "jsstring option"
  | Fetch jsstring requestInit

text \<open>
  \<open>Promise.all\<close>: rejected as soon as one promise is rejected (the earliest rejection
  wins), fulfilled with all values, in order, once the last promise is fulfilled.
\<close>

fun settle_both :: "'a promise \<Rightarrow> 'a list promise \<Rightarrow> 'a list promise" where
  "settle_both (Rejected t e) (Rejected t' e') =
     (if t \<le> t' then Rejected t e else Rejected t' e')"
| "settle_both (Rejected t e) (Fulfilled t' vs) = Rejected t e"
| "settle_both (Rejected t e) Pending = Rejected t e"
| "settle_both (Fulfilled t v) (Rejected t' e') = Rejected t' e'"
| "settle_both Pending (Rejected t' e') = Rejected t' e'"
| "settle_both Pending (Fulfilled t' vs) = Pending"
| "settle_both Pending Pending = Pending"
| "settle_both (Fulfilled t v) Pending = Pending"
| "settle_both (Fulfilled t v) (Fulfilled t' vs) = Fulfilled (max t t') (v # vs)"

fun Promise_all :: "'a promise list \<Rightarrow> 'a list promise" where
  "Promise_all [] = Fulfilled 0 []"
| "Promise_all (p # ps) = settle_both p (Promise_all ps)"

text \<open>
  Modelled from the spec: \<open>timeoutPromise\<close> of \<open>@/util/util\<close>, which is not part of this
  module.  It races the promise against one timer: the promise's own outcome when it
  settles within the timeout (at the latest when the timer is due), a rejection
  otherwise.  The result is what \<open>await\<close> sees:
  \<open>Inl\<close> is a thrown exception.
\<close>

definition timeoutPromise :: "nat \<Rightarrow> 'a promise \<Rightarrow> exn + 'a" where
  "timeoutPromise timeout p =
     (case p of
        Fulfilled t v \<Rightarrow> if t \<le> timeout then Inr v else Inl TimeoutError
      | Rejected t e \<Rightarrow> if t \<le> timeout then Inl e else Inl TimeoutError
      | Pending \<Rightarrow> Inl TimeoutError)"

section \<open>The GitHub scrobbler\<close>

definition baseUrl :: jsstring where
  "baseUrl = str ''https://api.github.com/''"

definition apiUrl :: jsstring where
  "apiUrl = baseUrl @ str ''repos/{owner}/{repo}/contents/{path}''"

definition getSession :: "scrobbler \<Rightarrow> exn + SessionData" where
  "getSession this =
     (case arrayProperties this of
        None \<Rightarrow> Inl (Error [])
      | Some propsList \<Rightarrow>
          if length propsList = 0 then Inl (Error [])
          else Inr \<lparr>sessionID = str ''webhook''\<rparr>)"

text \<open>The request object as a value, with its properties in the order of the literals.\<close>

definition data_value :: "request_data \<Rightarrow> jsval" where
  "data_value d =
     JObj ([(str ''song'', song d)]
           @ (case songs d of None \<Rightarrow> [] | Some ss \<Rightarrow> [(str ''songs'', JArr ss)])
           @ (case isLoved d of None \<Rightarrow> [] | Some b \<Rightarrow> [(str ''isLoved'', JBool b)])
           @ (case currentlyPlaying d of
                None \<Rightarrow> []
              | Some b \<Rightarrow> [(str ''currentlyPlaying'', JBool b)]))"

definition request_value :: "GitHubRequest \<Rightarrow> jsval" where
  "request_value request =
     JObj [(str ''eventName'', JStr (eventName request)),
           (str ''time'', JNum (time request)),
           (str ''data'', data_value (data request))]"

text \<open>The \<open>body\<close> of \<open>requestInfo\<close>; \<open>btoa\<close> may throw.\<close>

definition requestBody :: "GitHubRequest \<Rightarrow> exn + jsstring" where
  "requestBody request =
     (case btoa (ToString_opt (JSON_stringify (request_value request))) of
        Inl e \<Rightarrow> Inl e
      | Inr content \<Rightarrow>
          Inr (ToString_opt (JSON_stringify
            (JObj [(str ''message'',
                      JStr (eventName request @ str '' at '' @ Number_toString (time request))),
                   (str ''committer'',
                      JObj [(str ''name'', JStr (str ''WebScrobbler'')),
                            (str ''email'', JStr (str ''webscrobbler@github.com''))]),
                   (str ''content'', JStr content)]))))"

definition requestInfo :: "GitHubRequest \<Rightarrow> exn + requestInit" where
  "requestInfo request =
     (case requestBody request of
        Inl e \<Rightarrow> Inl e
      | Inr b \<Rightarrow>
          Inr \<lparr>method = str ''PUT'',
               headers = [(str ''Content-Type'', str ''application/json'')],
               body = b\<rparr>)"

text \<open>
  The third argument of the last \<open>replace\<close>: the text of the path under which the file
  is to be stored.  It reaches the URL through \<open>replace\<close>, which reads it as a
  replacement text.
\<close>

definition storagePath :: "GitHubRequest \<Rightarrow> jsstring" where
  "storagePath request =
     (let currentDate = new_Date (time request)
      in ToString_number (getUTCFullYear currentDate) @ str ''/''
         @ ToString_number (getUTCMonth currentDate) @ str ''/''
         @ ToString_number (getUTCDay currentDate) @ str ''/''
         @ ToString_number (getTime currentDate) @ str ''-''
         @ eventName request @ str ''.json'')"

definition targetUrl :: "props \<Rightarrow> GitHubRequest \<Rightarrow> jsstring" where
  "targetUrl p request =
     replace
       (replace
          (replace apiUrl (str ''{owner}'') (index (split 0x2F (applicationName p)) 0))
          (str ''{repo}'') (index (split 0x2F (applicationName p)) 1))
       (str ''{path}'') (Some (storagePath request))"

text \<open>The arguments of the \<open>fetch\<close> for one destination.\<close>

definition fetchArgs :: "requestInit \<Rightarrow> GitHubRequest \<Rightarrow> props \<Rightarrow> jsstring \<times> requestInit" where
  "fetchArgs info request p =
     (targetUrl p request,
      info\<lparr>headers := headers info @ [(str ''Authorization'', str ''Bearer '' @ userApiUrl p)]\<rparr>)"

text \<open>
  The loop over the destinations: the \<open>i\<close>-th iteration calls \<open>fetch\<close> and pushes the
  promise.  The result is the list of promises and the calls made.
\<close>

fun fanOut ::
  "network \<Rightarrow> requestInit \<Rightarrow> GitHubRequest \<Rightarrow> nat \<Rightarrow> props list
     \<Rightarrow> response promise list \<times> event list" where
  "fanOut net info request i [] = ([], [])"
| "fanOut net info request i (p # ps) =
     (let (targetUrl, init) = fetchArgs info request p;
          (promises, calls) = fanOut net info request (Suc i) ps
      in (net i targetUrl init # promises, Fetch targetUrl init # calls))"

text \<open>The scan of the responses: the first one whose status is not 200, if any.\<close>

fun firstFailure :: "response list \<Rightarrow> response option" where
  "firstFailure [] = None"
| "firstFailure (r # rs) = (if status r \<noteq> 200 then Some r else firstFailure rs)"

text \<open>
  \<open>sendRequest\<close>.  The result is the value the returned promise is fulfilled with
  (\<open>Inr\<close>) or the exception it is rejected with (\<open>Inl\<close>), and the events of the call.
\<close>

definition sendRequest ::
  "scrobbler \<Rightarrow> network \<Rightarrow> GitHubRequest \<Rightarrow> (exn + ServiceCallResult) \<times> event list" where
  "sendRequest this net request =
     (case arrayProperties this of
        None \<Rightarrow> (Inr ERROR_AUTH, [Dispatch request])
      | Some propsList \<Rightarrow>
          if length propsList = 0 then (Inr ERROR_AUTH, [Dispatch request])
          else
            let entry =
                  [Dispatch request,
                   DebugLog (str ''GitHub - sendRequest: ''
                             @ ToString_opt (JSON_stringify_2 (request_value request))) None]
            in (case requestInfo request of
                  Inl e \<Rightarrow> (Inl e, entry)
                | Inr info \<Rightarrow>
                    let (promises, calls) = fanOut net info request 0 propsList
                    in (case timeoutPromise (REQUEST_TIMEOUT this) (Promise_all promises) of
                          Inl e \<Rightarrow>
                            (Inr ERROR_OTHER,
                             entry @ calls
                             @ [DebugLog (str ''Error while sending request'')
                                  (Some (str ''error''))])
                        | Inr responses \<Rightarrow>
                            (case firstFailure responses of
                               Some r \<Rightarrow>
                                 (Inr ERROR_OTHER,
                                  entry @ calls
                                  @ [DebugLog (str ''Error in '' @ url r @ str ''.'')
                                       (Some (str ''error''))])
                             | None \<Rightarrow> (Inr RESULT_OK, entry @ calls)))))"

text \<open>The event operations; \<open>now\<close> is the value of \<open>Date.now()\<close>.\<close>

definition sendNowPlaying ::
  "scrobbler \<Rightarrow> network \<Rightarrow> int \<Rightarrow> jsval \<Rightarrow> (exn + ServiceCallResult) \<times> event list" where
  "sendNowPlaying this net now s =
     sendRequest this net
       \<lparr>eventName = str ''nowplaying'', time = now,
        data = \<lparr>song = s, songs = None, isLoved = None, currentlyPlaying = None\<rparr>\<rparr>"

definition sendPaused ::
  "scrobbler \<Rightarrow> network \<Rightarrow> int \<Rightarrow> jsval \<Rightarrow> (exn + ServiceCallResult) \<times> event list" where
  "sendPaused this net now s =
     sendRequest this net
       \<lparr>eventName = str ''paused'', time = now,
        data = \<lparr>song = s, songs = None, isLoved = None, currentlyPlaying = None\<rparr>\<rparr>"

definition sendResumedPlaying ::
  "scrobbler \<Rightarrow> network \<Rightarrow> int \<Rightarrow> jsval \<Rightarrow> (exn + ServiceCallResult) \<times> event list" where
  "sendResumedPlaying this net now s =
     sendRequest this net
       \<lparr>eventName = str ''resumedplaying'', time = now,
        data = \<lparr>song = s, songs = None, isLoved = None, currentlyPlaying = None\<rparr>\<rparr>"

text \<open>\<open>songs[0]\<close>: \<open>undefined\<close> on an empty array.\<close>

definition element :: "jsval list \<Rightarrow> nat \<Rightarrow> jsval" where
  "element xs i = (if i < length xs then xs ! i else JUndefined)"

definition scrobbleRequest :: "int \<Rightarrow> jsval list \<Rightarrow> bool \<Rightarrow> GitHubRequest" where
  "scrobbleRequest now ss playing =
     \<lparr>eventName = str ''scrobble'', time = now,
      data = \<lparr>song = element ss 0, songs = Some ss, isLoved = None,
              currentlyPlaying = Some playing\<rparr>\<rparr>"

definition scrobble ::
  "scrobbler \<Rightarrow> network \<Rightarrow> int \<Rightarrow> jsval list \<Rightarrow> bool
     \<Rightarrow> (exn + ServiceCallResult list) \<times> event list" where
  "scrobble this net now ss playing =
     (case sendRequest this net (scrobbleRequest now ss playing) of
        (Inl e, events) \<Rightarrow> (Inl e, events)
      | (Inr res, events) \<Rightarrow> (Inr (replicate (length ss) res), events))"

definition toggleLove ::
  "scrobbler \<Rightarrow> network \<Rightarrow> int \<Rightarrow> jsval \<Rightarrow> bool \<Rightarrow> (exn + ServiceCallResult) \<times> event list" where
  "toggleLove this net now s loved =
     sendRequest this net
       \<lparr>eventName = str ''loved'', time = now,
        data = \<lparr>song = s, songs = None, isLoved = Some loved, currentlyPlaying = None\<rparr>\<rparr>"

section \<open>Observing a call\<close>

text \<open>
  The requests with which \<open>sendRequest\<close> was entered, and the arguments of the calls of
  \<open>fetch\<close>, in the order of the events.
\<close>

fun dispatches :: "event list \<Rightarrow> GitHubRequest list" where
  "dispatches [] = []"
| "dispatches (Dispatch r # es) = r # dispatches es"
| "dispatches (DebugLog m l # es) = dispatches es"
| "dispatches (Fetch u i # es) = dispatches es"

fun fetches :: "event list \<Rightarrow> (jsstring \<times> requestInit) list" where
  "fetches [] = []"
| "fetches (Dispatch r # es) = fetches es"
| "fetches (DebugLog m l # es) = fetches es"
| "fetches (Fetch u i # es) = (u, i) # fetches es"

text \<open>
  Example inputs: a scrobbler with one destination, a network that answers every request
  at once with status 200, and a song whose title is the single character U+66F2.
\<close>

definition example_scrobbler :: scrobbler where
  "example_scrobbler =
     \<lparr>arrayProperties =
        Some [\<lparr>applicationName = str ''octo/music'', userApiUrl = str ''token''\<rparr>],
      REQUEST_TIMEOUT = 15000\<rparr>"

definition always_200 :: network where
  "always_200 i u init = Fulfilled 0 \<lparr>status = 200, url = u\<rparr>"

definition example_song :: jsval where
  "example_song = JObj [(str ''title'', JStr [0x66F2])]"

section \<open>The guard on the destination list\<close>

text \<open>
  C9: \<open>getSession\<close> is fulfilled with the fixed session identifier \<open>webhook\<close> exactly
  when at least one destination is configured, and is rejected with an \<open>Error\<close> exactly
  when the destination list is absent or empty.  Nothing else is computed: the result is
  one of these two values.
\<close>

theorem getSession_webhook_iff_configured:
  "(getSession this = Inr \<lparr>sessionID = str ''webhook''\<rparr>)
     = (\<exists>p ps. arrayProperties this = Some (p # ps))
   \<and> (getSession this = Inl (Error []))
     = (arrayProperties this = None \<or> arrayProperties this = Some [])"
  by (cases "arrayProperties this"; cases "the (arrayProperties this)")
     (simp_all add: getSession_def)

theorem getSession_webhook_iff_configured_witness:
  "getSession \<lparr>arrayProperties =
       Some [\<lparr>applicationName = str ''octo/music'', userApiUrl = str ''token''\<rparr>],
     REQUEST_TIMEOUT = 15000\<rparr> = Inr \<lparr>sessionID = str ''webhook''\<rparr>
   \<and> getSession \<lparr>arrayProperties = Some [], REQUEST_TIMEOUT = 15000\<rparr> = Inl (Error [])
   \<and> getSession \<lparr>arrayProperties = None, REQUEST_TIMEOUT = 15000\<rparr> = Inl (Error [])"
  using getSession_webhook_iff_configured
          [of "\<lparr>arrayProperties =
                  Some [\<lparr>applicationName = str ''octo/music'', userApiUrl = str ''token''\<rparr>],
                REQUEST_TIMEOUT = 15000\<rparr>"]
        getSession_webhook_iff_configured
          [of "\<lparr>arrayProperties = Some [], REQUEST_TIMEOUT = 15000\<rparr>"]
        getSession_webhook_iff_configured
          [of "\<lparr>arrayProperties = None, REQUEST_TIMEOUT = 15000\<rparr>"]
  by simp

text \<open>
  C1: when the destination list is absent or empty, \<open>sendRequest\<close> is fulfilled with
  \<open>ERROR_AUTH\<close> and the call does nothing but enter: no line is logged, no body is built
  (a request whose body cannot be built gets the same answer) and \<open>fetch\<close> is not
  called.  The same check makes \<open>getSession\<close> fail.
\<close>

theorem sendRequest_no_destinations:
  assumes "arrayProperties this = None \<or> arrayProperties this = Some []"
  shows "sendRequest this net request = (Inr ERROR_AUTH, [Dispatch request])
         \<and> getSession this = Inl (Error [])"
  using assms by (auto simp: sendRequest_def getSession_def)

theorem sendRequest_no_destinations_witness:
  "sendRequest \<lparr>arrayProperties = Some [], REQUEST_TIMEOUT = 15000\<rparr>
       (\<lambda>i u init. Fulfilled 0 \<lparr>status = 200, url = u\<rparr>)
       \<lparr>eventName = str ''nowplaying'', time = 1700000000000,
        data = \<lparr>song = JStr [0x100], songs = None, isLoved = None, currentlyPlaying = None\<rparr>\<rparr>
     = (Inr ERROR_AUTH,
        [Dispatch \<lparr>eventName = str ''nowplaying'', time = 1700000000000,
           data = \<lparr>song = JStr [0x100], songs = None, isLoved = None,
                   currentlyPlaying = None\<rparr>\<rparr>])
   \<and> getSession \<lparr>arrayProperties = Some [], REQUEST_TIMEOUT = 15000\<rparr> = Inl (Error [])
   \<and> requestInfo \<lparr>eventName = str ''nowplaying'', time = 1700000000000,
        data = \<lparr>song = JStr [0x100], songs = None, isLoved = None, currentlyPlaying = None\<rparr>\<rparr>
     = Inl InvalidCharacterError"
proof -
  have "requestInfo \<lparr>eventName = str ''nowplaying'', time = 1700000000000,
        data = \<lparr>song = JStr [0x100], songs = None, isLoved = None, currentlyPlaying = None\<rparr>\<rparr>
     = Inl InvalidCharacterError"
    by (simp add: requestInfo_def requestBody_def btoa_def request_value_def data_value_def
        JSON_stringify_def ToString_opt_def wrap_partial_def QuoteJSONString_def
        is_leading_surrogate_def is_trailing_surrogate_def)
  then show ?thesis
    using sendRequest_no_destinations
            [of "\<lparr>arrayProperties = Some [], REQUEST_TIMEOUT = 15000\<rparr>"
                "\<lambda>i u init. Fulfilled 0 \<lparr>status = 200, url = u\<rparr>"
                "\<lparr>eventName = str ''nowplaying'', time = 1700000000000,
                  data = \<lparr>song = JStr [0x100], songs = None, isLoved = None,
                          currentlyPlaying = None\<rparr>\<rparr>"]
    by simp
qed

section \<open>The fan-out and the joined wait\<close>

text \<open>
  The loop calls \<open>fetch\<close> once per destination, in order; the \<open>i\<close>-th promise is the
  network's answer to the \<open>i\<close>-th call.
\<close>

lemma fanOut_shape:
  "fanOut net info request i ps = (promises, calls) \<Longrightarrow>
     promises = map (\<lambda>(j, p). net j (fst (fetchArgs info request p)) (snd (fetchArgs info request p)))
                  (zip [i ..< i + length ps] ps)
     \<and> calls = map (\<lambda>p. Fetch (fst (fetchArgs info request p)) (snd (fetchArgs info request p))) ps"
proof (induction ps arbitrary: i promises calls)
  case Nil
  then show ?case by simp
next
  case (Cons p ps)
  obtain pr cl where rec: "fanOut net info request (Suc i) ps = (pr, cl)"
    by (cases "fanOut net info request (Suc i) ps")
  from Cons.IH [OF rec] have ih:
    "pr = map (\<lambda>(j, p). net j (fst (fetchArgs info request p)) (snd (fetchArgs info request p)))
            (zip [Suc i ..< Suc i + length ps] ps)"
    "cl = map (\<lambda>p. Fetch (fst (fetchArgs info request p)) (snd (fetchArgs info request p))) ps"
    by simp_all
  have up: "[i ..< i + length (p # ps)] = i # [Suc i ..< Suc i + length ps]"
    by (subst upt_rec) (simp del: upt_Suc)
  from Cons.prems rec have "promises = net i (fst (fetchArgs info request p)) (snd (fetchArgs info request p)) # pr"
    and "calls = Fetch (fst (fetchArgs info request p)) (snd (fetchArgs info request p)) # cl"
    by (auto split: prod.splits)
  then show ?case
    unfolding up ih by simp
qed

lemma timeoutPromise_all_Inr:
  "timeoutPromise T (Promise_all ps) = Inr vs \<Longrightarrow>
     \<forall>p \<in> set ps. \<exists>t v. p = Fulfilled t v \<and> t \<le> T"
proof (induction ps arbitrary: vs)
  case Nil
  then show ?case by simp
next
  case (Cons p ps)
  show ?case
  proof (cases p)
    case (Fulfilled t v)
    show ?thesis
    proof (cases "Promise_all ps")
      case (Fulfilled t' vs')
      with Cons.prems \<open>p = Fulfilled t v\<close> have le: "max t t' \<le> T"
        by (simp add: timeoutPromise_def split: if_splits)
      then have "timeoutPromise T (Promise_all ps) = Inr vs'"
        using Fulfilled by (simp add: timeoutPromise_def)
      from Cons.IH [OF this] le \<open>p = Fulfilled t v\<close> show ?thesis by simp
    next
      case (Rejected t' e)
      with Cons.prems \<open>p = Fulfilled t v\<close> show ?thesis
        by (simp add: timeoutPromise_def split: if_splits)
    next
      case Pending
      with Cons.prems \<open>p = Fulfilled t v\<close> show ?thesis
        by (simp add: timeoutPromise_def)
    qed
  next
    case (Rejected t e)
    with Cons.prems show ?thesis
      by (cases "Promise_all ps") (simp_all add: timeoutPromise_def split: if_splits)
  next
    case Pending
    with Cons.prems show ?thesis
      by (cases "Promise_all ps") (simp_all add: timeoutPromise_def split: if_splits)
  qed
qed

lemma Promise_all_arrivals:
  "Promise_all (map (\<lambda>(t, r). Fulfilled t r) arrivals)
     = Fulfilled (foldr max (map fst arrivals) 0) (map snd arrivals)"
proof (induction arrivals)
  case Nil
  then show ?case by simp
next
  case (Cons a arrivals)
  then show ?case by (cases a) (simp add: max.commute)
qed

lemma timeoutPromise_arrivals:
  assumes "\<forall>(t, r) \<in> set arrivals. t \<le> T"
  shows "timeoutPromise T (Promise_all (map (\<lambda>(t, r). Fulfilled t r) arrivals))
           = Inr (map snd arrivals)"
proof -
  have "foldr max (map fst arrivals) 0 \<le> T"
    using assms by (induction arrivals) auto
  then show ?thesis
    by (simp add: Promise_all_arrivals timeoutPromise_def)
qed

lemma promises_as_arrivals:
  "\<forall>p \<in> set ps. \<exists>t v. p = Fulfilled t v \<and> P t v \<Longrightarrow>
     \<exists>arrivals. ps = map (\<lambda>(t, r). Fulfilled t r) arrivals \<and> (\<forall>(t, r) \<in> set arrivals. P t r)"
proof (induction ps)
  case Nil
  then show ?case by simp
next
  case (Cons p ps)
  then obtain arrivals where a: "ps = map (\<lambda>(t, r). Fulfilled t r) arrivals"
      "\<forall>(t, r) \<in> set arrivals. P t r"
    by auto
  from Cons.prems obtain t v where "p = Fulfilled t v" "P t v" by auto
  with a have "p # ps = map (\<lambda>(t, r). Fulfilled t r) ((t, v) # arrivals)
      \<and> (\<forall>(t, r) \<in> set ((t, v) # arrivals). P t r)"
    by simp
  then show ?case by (intro exI [of _ "(t, v) # arrivals"])
qed

lemma firstFailure_None: "(firstFailure rs = None) = (\<forall>r \<in> set rs. status r = 200)"
  by (induction rs) auto

lemma firstFailure_first:
  "\<forall>x \<in> set ok. status x = 200 \<Longrightarrow> status r \<noteq> 200 \<Longrightarrow>
     firstFailure (ok @ r # rest) = Some r"
  by (induction ok) auto

text \<open>
  The body can be built exactly when the serialised request holds no code unit above
  \<open>0xFF\<close>.
\<close>

lemma requestInfo_Inr:
  "(\<exists>info. requestInfo request = Inr info)
     = (\<forall>c \<in> set (ToString_opt (JSON_stringify (request_value request))). c \<le> 0xFF)"
  by (auto simp: requestInfo_def requestBody_def btoa_def not_le split: sum.splits)

lemmas stringify_simps = request_value_def data_value_def
  JSON_stringify_def JSON_stringify_2_def ToString_opt_def wrap_partial_def QuoteJSONString_def
  is_leading_surrogate_def is_trailing_surrogate_def Number_toString_def Number_digits_def isFinite_def decimal.simps
  digit_def str_def

section \<open>The aggregate outcome\<close>

text \<open>
  C2: for a non-empty destination list, when the call has issued its requests (the body
  was built and \<open>fetch\<close> was called once per destination) and every response arrives
  within the timeout with status 200, \<open>sendRequest\<close> is fulfilled with \<open>RESULT_OK\<close>; no
  error line is logged.
\<close>

theorem sendRequest_all_200:
  assumes "arrayProperties this = Some propsList" and "propsList \<noteq> []"
    and "requestInfo request = Inr info"
    and "fanOut net info request 0 propsList = (promises, calls)"
    and "\<forall>p \<in> set promises.
           \<exists>t r. p = Fulfilled t r \<and> t \<le> REQUEST_TIMEOUT this \<and> status r = 200"
  shows "length promises = length propsList
         \<and> sendRequest this net request =
             (Inr RESULT_OK,
              [Dispatch request,
               DebugLog (str ''GitHub - sendRequest: ''
                         @ ToString_opt (JSON_stringify_2 (request_value request))) None]
              @ calls)"
proof -
  from promises_as_arrivals [OF assms(5)] obtain arrivals where
    ps: "promises = map (\<lambda>(t, r). Fulfilled t r) arrivals"
    and ok: "\<forall>(t, r) \<in> set arrivals. t \<le> REQUEST_TIMEOUT this \<and> status r = 200"
    by blast
  from ok have "\<forall>(t, r) \<in> set arrivals. t \<le> REQUEST_TIMEOUT this" by auto
  then have wait: "timeoutPromise (REQUEST_TIMEOUT this) (Promise_all promises)
      = Inr (map snd arrivals)"
    unfolding ps by (rule timeoutPromise_arrivals)
  from ok have "\<forall>r \<in> set (map snd arrivals). status r = 200" by auto
  then have scan: "firstFailure (map snd arrivals) = None"
    by (simp only: firstFailure_None)
  have len: "length promises = length propsList"
    using fanOut_shape [OF assms(4)] by simp
  from assms(1-4) wait scan len show ?thesis
    by (simp add: sendRequest_def)
qed

theorem sendRequest_all_200_witness:
  "fst (sendRequest
     \<lparr>arrayProperties =
        Some [\<lparr>applicationName = str ''octo/music'', userApiUrl = str ''t1''\<rparr>,
              \<lparr>applicationName = str ''octo/backup'', userApiUrl = str ''t2''\<rparr>],
      REQUEST_TIMEOUT = 15000\<rparr>
     (\<lambda>i u init. Fulfilled (100 * i) \<lparr>status = 200, url = u\<rparr>)
     \<lparr>eventName = str ''paused'', time = 1700000000000,
      data = \<lparr>song = JStr (str ''Song''), songs = None, isLoved = None,
              currentlyPlaying = None\<rparr>\<rparr>) = Inr RESULT_OK"
proof -
  let ?props = "[\<lparr>applicationName = str ''octo/music'', userApiUrl = str ''t1''\<rparr>,
                 \<lparr>applicationName = str ''octo/backup'', userApiUrl = str ''t2''\<rparr>]"
  let ?me = "\<lparr>arrayProperties = Some ?props, REQUEST_TIMEOUT = 15000\<rparr>"
  let ?net = "\<lambda>(i::nat) (u::jsstring) (init::requestInit).
                Fulfilled (100 * i) \<lparr>status = 200, url = u\<rparr>"
  let ?req = "\<lparr>eventName = str ''paused'', time = 1700000000000,
               data = \<lparr>song = JStr (str ''Song''), songs = None, isLoved = None,
                       currentlyPlaying = None\<rparr>\<rparr>"
  have "\<exists>info. requestInfo ?req = Inr info"
    unfolding requestInfo_Inr by (simp add: stringify_simps)
  then obtain info where i: "requestInfo ?req = Inr info" ..
  obtain promises calls where f: "fanOut ?net info ?req 0 ?props = (promises, calls)"
    by fastforce
  have a: "arrayProperties ?me = Some ?props" and n: "?props \<noteq> []"
    by simp_all
  have "\<forall>p \<in> set promises.
          \<exists>t r. p = Fulfilled t r \<and> t \<le> REQUEST_TIMEOUT ?me \<and> status r = 200"
    using fanOut_shape [OF f] by (auto simp: upt_rec)
  from sendRequest_all_200 [OF a n i f this] show ?thesis
    by simp
qed

text \<open>
  C3: for a non-empty destination list whose requests were issued and whose responses
  all arrive within the timeout, if some response has a status other than 200 then
  \<open>sendRequest\<close> is fulfilled with \<open>ERROR_OTHER\<close>, whatever the responses after the first
  such one are; the only error line logged names the first offending response, so the
  scan stops there.
\<close>

theorem sendRequest_first_failure:
  assumes "arrayProperties this = Some propsList" and "propsList \<noteq> []"
    and "requestInfo request = Inr info"
    and "fanOut net info request 0 propsList = (promises, calls)"
    and "promises = map (\<lambda>(t, r). Fulfilled t r) arrivals"
    and "\<forall>(t, r) \<in> set arrivals. t \<le> REQUEST_TIMEOUT this"
    and "map snd arrivals = ok @ r # rest"
    and "\<forall>x \<in> set ok. status x = 200"
    and "status r \<noteq> 200"
  shows "sendRequest this net request =
           (Inr ERROR_OTHER,
            [Dispatch request,
             DebugLog (str ''GitHub - sendRequest: ''
                       @ ToString_opt (JSON_stringify_2 (request_value request))) None]
            @ calls
            @ [DebugLog (str ''Error in '' @ url r @ str ''.'') (Some (str ''error''))])"
proof -
  have wait: "timeoutPromise (REQUEST_TIMEOUT this) (Promise_all promises)
      = Inr (ok @ r # rest)"
    unfolding assms(5) using timeoutPromise_arrivals [OF assms(6)] assms(7) by simp
  have scan: "firstFailure (ok @ r # rest) = Some r"
    using assms(8,9) by (rule firstFailure_first)
  from assms(1-4) wait scan show ?thesis
    by (simp add: sendRequest_def)
qed

theorem sendRequest_first_failure_witness:
  "sendRequest
     \<lparr>arrayProperties =
        Some [\<lparr>applicationName = str ''octo/music'', userApiUrl = str ''t1''\<rparr>,
              \<lparr>applicationName = str ''octo/backup'', userApiUrl = str ''t2''\<rparr>,
              \<lparr>applicationName = str ''octo/third'', userApiUrl = str ''t3''\<rparr>],
      REQUEST_TIMEOUT = 15000\<rparr>
     (\<lambda>i u init. Fulfilled (100 * i) \<lparr>status = (if i = 0 then 200 else 403 + int i), url = u\<rparr>)
     \<lparr>eventName = str ''paused'', time = 1700000000000,
      data = \<lparr>song = JStr (str ''Song''), songs = None, isLoved = None,
              currentlyPlaying = None\<rparr>\<rparr>
   = (Inr ERROR_OTHER,
      [Dispatch \<lparr>eventName = str ''paused'', time = 1700000000000,
         data = \<lparr>song = JStr (str ''Song''), songs = None, isLoved = None,
                 currentlyPlaying = None\<rparr>\<rparr>,
       DebugLog (str ''GitHub - sendRequest: ''
         @ ToString_opt (JSON_stringify_2 (request_value
             \<lparr>eventName = str ''paused'', time = 1700000000000,
              data = \<lparr>song = JStr (str ''Song''), songs = None, isLoved = None,
                      currentlyPlaying = None\<rparr>\<rparr>))) None]
      @ snd (fanOut
          (\<lambda>i u init. Fulfilled (100 * i)
             \<lparr>status = (if i = 0 then 200 else 403 + int i), url = u\<rparr>)
          (projr (requestInfo
             \<lparr>eventName = str ''paused'', time = 1700000000000,
              data = \<lparr>song = JStr (str ''Song''), songs = None, isLoved = None,
                      currentlyPlaying = None\<rparr>\<rparr>))
          \<lparr>eventName = str ''paused'', time = 1700000000000,
           data = \<lparr>song = JStr (str ''Song''), songs = None, isLoved = None,
                   currentlyPlaying = None\<rparr>\<rparr>
          0
          [\<lparr>applicationName = str ''octo/music'', userApiUrl = str ''t1''\<rparr>,
           \<lparr>applicationName = str ''octo/backup'', userApiUrl = str ''t2''\<rparr>,
           \<lparr>applicationName = str ''octo/third'', userApiUrl = str ''t3''\<rparr>])
      @ [DebugLog
           (str ''Error in ''
            @ targetUrl \<lparr>applicationName = str ''octo/backup'', userApiUrl = str ''t2''\<rparr>
                \<lparr>eventName = str ''paused'', time = 1700000000000,
                 data = \<lparr>song = JStr (str ''Song''), songs = None, isLoved = None,
                         currentlyPlaying = None\<rparr>\<rparr>
            @ str ''.'')
           (Some (str ''error''))])"
proof -
  let ?p1 = "\<lparr>applicationName = str ''octo/music'', userApiUrl = str ''t1''\<rparr>"
  let ?p2 = "\<lparr>applicationName = str ''octo/backup'', userApiUrl = str ''t2''\<rparr>"
  let ?p3 = "\<lparr>applicationName = str ''octo/third'', userApiUrl = str ''t3''\<rparr>"
  let ?props = "[?p1, ?p2, ?p3]"
  let ?me = "\<lparr>arrayProperties = Some ?props, REQUEST_TIMEOUT = 15000\<rparr>"
  let ?net = "\<lambda>(i::nat) (u::jsstring) (init::requestInit).
                Fulfilled (100 * i) \<lparr>status = (if i = 0 then 200 else 403 + int i), url = u\<rparr>"
  let ?req = "\<lparr>eventName = str ''paused'', time = 1700000000000,
               data = \<lparr>song = JStr (str ''Song''), songs = None, isLoved = None,
                       currentlyPlaying = None\<rparr>\<rparr>"
  have "\<exists>info. requestInfo ?req = Inr info"
    unfolding requestInfo_Inr by (simp add: stringify_simps)
  then obtain info where i: "requestInfo ?req = Inr info" ..
  obtain promises calls where f: "fanOut ?net info ?req 0 ?props = (promises, calls)"
    by fastforce
  let ?arrivals = "[(0, \<lparr>status = 200, url = targetUrl ?p1 ?req\<rparr>),
                    (100, \<lparr>status = 404, url = targetUrl ?p2 ?req\<rparr>),
                    (200, \<lparr>status = 405, url = targetUrl ?p3 ?req\<rparr>)]"
  have a: "arrayProperties ?me = Some ?props" and n: "?props \<noteq> []"
    by simp_all
  have ps: "promises = map (\<lambda>(t, r). Fulfilled t r) ?arrivals"
    using fanOut_shape [OF f] by (simp add: upt_rec fetchArgs_def)
  have tm: "\<forall>(t, r) \<in> set ?arrivals. t \<le> REQUEST_TIMEOUT ?me"
    by simp
  have sp: "map snd ?arrivals = [\<lparr>status = 200, url = targetUrl ?p1 ?req\<rparr>]
      @ \<lparr>status = 404, url = targetUrl ?p2 ?req\<rparr>
      # [\<lparr>status = 405, url = targetUrl ?p3 ?req\<rparr>]"
    by simp
  have ok: "\<forall>x \<in> set [\<lparr>status = 200, url = targetUrl ?p1 ?req\<rparr>]. status x = 200"
    by simp
  have bad: "status \<lparr>status = 404, url = targetUrl ?p2 ?req\<rparr> \<noteq> 200"
    by simp
  from sendRequest_first_failure [OF a n i f ps tm sp ok bad] i f show ?thesis
    by simp
qed

text \<open>
  C4: for a non-empty destination list whose requests were issued, if some request does
  not deliver a response within the timeout (its promise is rejected, settles too late
  or never settles), then the fault is caught: \<open>sendRequest\<close> is fulfilled with
  \<open>ERROR_OTHER\<close> after logging one line.  An exception that does escape from
  \<open>sendRequest\<close> is never one of the network or of the timer: it was thrown while the
  body was built, before the first \<open>fetch\<close>.
\<close>

theorem sendRequest_catches:
  "(arrayProperties this = Some propsList \<and> propsList \<noteq> []
      \<and> requestInfo request = Inr info
      \<and> fanOut net info request 0 propsList = (promises, calls)
      \<and> (\<exists>p \<in> set promises. \<not> (\<exists>t r. p = Fulfilled t r \<and> t \<le> REQUEST_TIMEOUT this))
    \<longrightarrow> sendRequest this net request =
          (Inr ERROR_OTHER,
           [Dispatch request,
            DebugLog (str ''GitHub - sendRequest: ''
                      @ ToString_opt (JSON_stringify_2 (request_value request))) None]
           @ calls
           @ [DebugLog (str ''Error while sending request'') (Some (str ''error''))]))
   \<and> (fst (sendRequest this net request) = Inl e
    \<longrightarrow> requestInfo request = Inl e
        \<and> snd (sendRequest this net request) =
            [Dispatch request,
             DebugLog (str ''GitHub - sendRequest: ''
                       @ ToString_opt (JSON_stringify_2 (request_value request))) None])"
proof (intro conjI impI)
  assume h: "arrayProperties this = Some propsList \<and> propsList \<noteq> []
      \<and> requestInfo request = Inr info
      \<and> fanOut net info request 0 propsList = (promises, calls)
      \<and> (\<exists>p \<in> set promises. \<not> (\<exists>t r. p = Fulfilled t r \<and> t \<le> REQUEST_TIMEOUT this))"
  have "\<exists>x. timeoutPromise (REQUEST_TIMEOUT this) (Promise_all promises) = Inl x"
  proof (cases "timeoutPromise (REQUEST_TIMEOUT this) (Promise_all promises)")
    case (Inl x)
    then show ?thesis by simp
  next
    case (Inr responses)
    from timeoutPromise_all_Inr [OF this] h show ?thesis by blast
  qed
  then obtain x where "timeoutPromise (REQUEST_TIMEOUT this) (Promise_all promises) = Inl x" ..
  with h show "sendRequest this net request =
          (Inr ERROR_OTHER,
           [Dispatch request,
            DebugLog (str ''GitHub - sendRequest: ''
                      @ ToString_opt (JSON_stringify_2 (request_value request))) None]
           @ calls
           @ [DebugLog (str ''Error while sending request'') (Some (str ''error''))])"
    by (simp add: sendRequest_def)
next
  assume "fst (sendRequest this net request) = Inl e"
  then show "requestInfo request = Inl e"
    by (auto simp: sendRequest_def Let_def
        split: option.splits if_splits sum.splits prod.splits)
next
  assume "fst (sendRequest this net request) = Inl e"
  then show "snd (sendRequest this net request) =
            [Dispatch request,
             DebugLog (str ''GitHub - sendRequest: ''
                       @ ToString_opt (JSON_stringify_2 (request_value request))) None]"
    by (auto simp: sendRequest_def Let_def
        split: option.splits if_splits sum.splits prod.splits)
qed

theorem sendRequest_catches_witness:
  "fst (sendRequest
     \<lparr>arrayProperties =
        Some [\<lparr>applicationName = str ''octo/music'', userApiUrl = str ''t1''\<rparr>,
              \<lparr>applicationName = str ''octo/backup'', userApiUrl = str ''t2''\<rparr>,
              \<lparr>applicationName = str ''octo/third'', userApiUrl = str ''t3''\<rparr>],
      REQUEST_TIMEOUT = 15000\<rparr>
     (\<lambda>i u init. if i = 1 then Fulfilled 15001 \<lparr>status = 200, url = u\<rparr>
        else Fulfilled 100 \<lparr>status = 200, url = u\<rparr>)
     \<lparr>eventName = str ''paused'', time = 1700000000000,
      data = \<lparr>song = JStr (str ''Song''), songs = None, isLoved = None,
              currentlyPlaying = None\<rparr>\<rparr>) = Inr ERROR_OTHER
   \<and> fst (sendRequest
     \<lparr>arrayProperties =
        Some [\<lparr>applicationName = str ''octo/music'', userApiUrl = str ''t1''\<rparr>],
      REQUEST_TIMEOUT = 15000\<rparr>
     (\<lambda>i u init. Rejected 20 NetworkError)
     \<lparr>eventName = str ''paused'', time = 1700000000000,
      data = \<lparr>song = JStr (str ''Song''), songs = None, isLoved = None,
              currentlyPlaying = None\<rparr>\<rparr>) = Inr ERROR_OTHER
   \<and> fst (sendRequest
     \<lparr>arrayProperties =
        Some [\<lparr>applicationName = str ''octo/music'', userApiUrl = str ''t1''\<rparr>],
      REQUEST_TIMEOUT = 15000\<rparr>
     (\<lambda>i u init. Rejected 20 NetworkError)
     \<lparr>eventName = str ''paused'', time = 1700000000000,
      data = \<lparr>song = JStr [0x100], songs = None, isLoved = None,
              currentlyPlaying = None\<rparr>\<rparr>) = Inl InvalidCharacterError
   \<and> requestInfo
     \<lparr>eventName = str ''paused'', time = 1700000000000,
      data = \<lparr>song = JStr [0x100], songs = None, isLoved = None,
              currentlyPlaying = None\<rparr>\<rparr> = Inl InvalidCharacterError"
proof -
  let ?props = "[\<lparr>applicationName = str ''octo/music'', userApiUrl = str ''t1''\<rparr>,
                 \<lparr>applicationName = str ''octo/backup'', userApiUrl = str ''t2''\<rparr>,
                 \<lparr>applicationName = str ''octo/third'', userApiUrl = str ''t3''\<rparr>]"
  let ?me = "\<lparr>arrayProperties = Some ?props, REQUEST_TIMEOUT = 15000\<rparr>"
  let ?net = "\<lambda>(i::nat) (u::jsstring) (init::requestInit).
                if i = 1 then Fulfilled 15001 \<lparr>status = 200, url = u\<rparr>
                else Fulfilled 100 \<lparr>status = 200, url = u\<rparr>"
  let ?req = "\<lparr>eventName = str ''paused'', time = 1700000000000,
               data = \<lparr>song = JStr (str ''Song''), songs = None, isLoved = None,
                       currentlyPlaying = None\<rparr>\<rparr>"
  let ?props' = "[\<lparr>applicationName = str ''octo/music'', userApiUrl = str ''t1''\<rparr>]"
  let ?me' = "\<lparr>arrayProperties = Some ?props', REQUEST_TIMEOUT = 15000\<rparr>"
  let ?net' = "\<lambda>(i::nat) (u::jsstring) (init::requestInit).
                 (Rejected 20 NetworkError :: response promise)"
  let ?req' = "\<lparr>eventName = str ''paused'', time = 1700000000000,
                data = \<lparr>song = JStr [0x100], songs = None, isLoved = None,
                        currentlyPlaying = None\<rparr>\<rparr>"
  have "\<exists>info. requestInfo ?req = Inr info"
    unfolding requestInfo_Inr by (simp add: stringify_simps)
  then obtain info where i: "requestInfo ?req = Inr info" ..
  obtain promises calls where f: "fanOut ?net info ?req 0 ?props = (promises, calls)"
    by fastforce
  have late: "\<exists>p \<in> set promises. \<not> (\<exists>t r. p = Fulfilled t r \<and> t \<le> REQUEST_TIMEOUT ?me)"
    using fanOut_shape [OF f] by (simp add: upt_rec)
  have timed_out: "fst (sendRequest ?me ?net ?req) = Inr ERROR_OTHER"
    using sendRequest_catches [of ?me ?props ?req info ?net promises calls] i f late
    by simp
  obtain promises' calls' where
    f': "fanOut ?net' info ?req 0 ?props' = (promises', calls')"
    by fastforce
  have failed: "\<exists>p \<in> set promises'.
      \<not> (\<exists>t r. p = Fulfilled t r \<and> t \<le> REQUEST_TIMEOUT ?me')"
    using fanOut_shape [OF f'] by (simp add: upt_rec)
  have transport: "fst (sendRequest ?me' ?net' ?req) = Inr ERROR_OTHER"
    using sendRequest_catches [of ?me' ?props' ?req info ?net' promises' calls'] i f' failed
    by simp
  have thrown: "fst (sendRequest ?me' ?net' ?req') = Inl InvalidCharacterError"
    by (simp add: sendRequest_def requestInfo_def requestBody_def btoa_def stringify_simps)
  from sendRequest_catches [of ?me' _ ?req' _ ?net' _ _ InvalidCharacterError]
    thrown timed_out transport
  show ?thesis
    by simp
qed

section \<open>The events of a call\<close>

text \<open>
  Three integers at and beyond \<open>10^21\<close>; the second is not a Number, and the Number
  nearest to it prints with a single digit.
\<close>

lemma Number_toString_examples:
  "Number_toString 1000000000000000000000 = str ''1e+21''"
  "Number_toString 100000000000000000000000 = str ''1e+23''"
  "Number_toString (- 500000000000000000000) = str ''-500000000000000000000''"
  by (simp_all add: Number_toString_def Number_digits_def NumberValue_def bits.simps Let_def
      ShortestDigits.simps FormatDigits_def decimal.simps digit_def str_def)

lemma digit_range: "d < 10 \<Longrightarrow> 0x30 \<le> digit d \<and> digit d \<le> 0x39"
proof -
  assume "d < 10"
  then have "d \<in> {0, 1, 2, 3, 4, 5, 6, 7, 8, 9}" by auto
  then show ?thesis by (auto simp: digit_def)
qed

lemma decimal_digits: "\<forall>c \<in> set (decimal n). 0x30 \<le> c \<and> c \<le> 0x39"
proof (induction n rule: decimal.induct)
  case (1 n)
  show ?case
  proof (cases "n < 10")
    case True
    then show ?thesis by (subst decimal.simps) (simp add: digit_range)
  next
    case False
    with 1 show ?thesis by (subst decimal.simps) (simp add: digit_range)
  qed
qed

lemma FormatDigits_class:
  assumes "c \<in> set (FormatDigits s n)"
  shows "(0x30 \<le> c \<and> c \<le> 0x39) \<or> c = 0x2E \<or> c = 0x65 \<or> c = 0x2B"
proof -
  have d: "0x30 \<le> x \<and> x \<le> 0x39" if "x \<in> set (decimal k)" for x k
    using that decimal_digits [of k] by blast
  from assms consider "c \<in> set (decimal s)" | "c = 0x30" | "c \<in> set (decimal (n - 1))"
    | "c \<in> set (str ''e+'')" | "c \<in> set (str ''.'')"
    by (auto simp: FormatDigits_def split: if_splits dest: in_set_takeD in_set_dropD)
  then show ?thesis
    by cases (auto simp: str_def dest: d)
qed

lemma Number_digits_class:
  assumes "c \<in> set (Number_digits m)"
  shows "(0x30 \<le> c \<and> c \<le> 0x39) \<or> c \<in> set (str ''.e+Infinity'')"
proof (cases "m < 9007199254740992")
  case True
  with assms decimal_digits [of m] show ?thesis
    by (auto simp: Number_digits_def)
next
  case False
  show ?thesis
  proof (cases "2 ^ 1024 \<le> NumberValue m")
    case True
    with False assms have "c \<in> set (str ''Infinity'')"
      by (simp add: Number_digits_def)
    then show ?thesis by (auto simp: str_def)
  next
    case big: False
    obtain s n where "ShortestDigits (NumberValue m) (length (decimal (NumberValue m))) 1 = (s, n)"
      by fastforce
    with False big assms have "c \<in> set (FormatDigits s n)"
      by (simp add: Number_digits_def)
    from FormatDigits_class [OF this] show ?thesis
      by (auto simp: str_def)
  qed
qed

lemma Number_toString_le: "\<forall>c \<in> set (Number_toString n). c \<le> 0xFF"
proof
  fix c assume "c \<in> set (Number_toString n)"
  then have "c = 0x2D \<or> c \<in> set (Number_digits (nat \<bar>n\<bar>))"
    by (auto simp: Number_toString_def str_def split: if_splits)
  moreover have "c \<le> 0xFF" if "c \<le> 0x39"
    using that by (rule order_trans) simp
  ultimately show "c \<le> 0xFF"
    using Number_digits_class [of c "nat \<bar>n\<bar>"]
    by (auto simp: str_def)
qed

lemma Number_toString_no_dollar: "0x24 \<notin> set (Number_toString n)"
proof
  assume "0x24 \<in> set (Number_toString n)"
  then have "0x24 \<in> set (Number_digits (nat \<bar>n\<bar>))"
    by (auto simp: Number_toString_def str_def split: if_splits)
  from Number_digits_class [OF this] show False
    by (simp add: str_def)
qed

lemma dispatches_append: "dispatches (xs @ ys) = dispatches xs @ dispatches ys"
  by (induction xs rule: dispatches.induct) simp_all

lemma fetches_append: "fetches (xs @ ys) = fetches xs @ fetches ys"
  by (induction xs rule: fetches.induct) simp_all

lemma dispatches_Fetch: "dispatches (map (\<lambda>p. Fetch (f p) (g p)) ps) = []"
  by (induction ps) simp_all

lemma fetches_Fetch: "fetches (map (\<lambda>p. Fetch (f p) (g p)) ps) = map (\<lambda>p. (f p, g p)) ps"
  by (induction ps) simp_all

lemma fanOut_calls:
  assumes "fanOut net info request i ps = (promises, calls)"
  shows "dispatches calls = []"
    and "fetches calls = map (fetchArgs info request) ps"
proof -
  from fanOut_shape [OF assms] have
    c: "calls = map (\<lambda>p. Fetch (fst (fetchArgs info request p))
                               (snd (fetchArgs info request p))) ps"
    by simp
  show "dispatches calls = []"
    unfolding c by (rule dispatches_Fetch)
  show "fetches calls = map (fetchArgs info request) ps"
    unfolding c by (simp only: fetches_Fetch prod.collapse)
qed

lemma scrobble_empty_body:
  "\<exists>info. requestInfo (scrobbleRequest now [] playing) = Inr info"
proof -
  have n: "\<And>c. c \<in> set (Number_toString now) \<Longrightarrow> c \<le> 0xFF"
    using Number_toString_le [of now] by blast
  show ?thesis
    unfolding requestInfo_Inr
    by (cases playing)
       (simp_all add: scrobbleRequest_def element_def request_value_def data_value_def
        JSON_stringify_def ToString_opt_def wrap_partial_def QuoteJSONString_def str_def
        is_leading_surrogate_def is_trailing_surrogate_def ball_Un n)
qed


lemma sendRequest_sent:
  assumes "arrayProperties this = Some propsList" and "propsList \<noteq> []"
    and "requestInfo request = Inr info"
    and "fanOut net info request 0 propsList = (promises, calls)"
  shows "\<exists>r tail.
           sendRequest this net request =
             (Inr r,
              [Dispatch request,
               DebugLog (str ''GitHub - sendRequest: ''
                         @ ToString_opt (JSON_stringify_2 (request_value request))) None]
              @ calls @ tail)
           \<and> (tail = [] \<or> (\<exists>m l. tail = [DebugLog m l]))"
proof (cases "timeoutPromise (REQUEST_TIMEOUT this) (Promise_all promises)")
  case (Inl e)
  with assms show ?thesis by (simp add: sendRequest_def)
next
  case (Inr responses)
  with assms show ?thesis
    by (cases "firstFailure responses") (simp_all add: sendRequest_def)
qed

lemma sendRequest_dispatches: "dispatches (snd (sendRequest this net request)) = [request]"
proof (cases "arrayProperties this = None \<or> arrayProperties this = Some []")
  case True
  then show ?thesis by (auto simp: sendRequest_def)
next
  case False
  then obtain propsList where a: "arrayProperties this = Some propsList" "propsList \<noteq> []"
    by auto
  show ?thesis
  proof (cases "requestInfo request")
    case (Inl e)
    with a show ?thesis by (simp add: sendRequest_def)
  next
    case (Inr info)
    obtain promises calls where f: "fanOut net info request 0 propsList = (promises, calls)"
      by fastforce
    from sendRequest_sent [OF a Inr f] fanOut_calls(1) [OF f] show ?thesis
      by (auto simp: dispatches_append)
  qed
qed

lemma sendRequest_fetches:
  assumes "arrayProperties this = Some propsList" and "propsList \<noteq> []"
    and "requestInfo request = Inr info"
  shows "fetches (snd (sendRequest this net request)) = map (fetchArgs info request) propsList"
proof -
  obtain promises calls where f: "fanOut net info request 0 propsList = (promises, calls)"
    by fastforce
  from sendRequest_sent [OF assms f] fanOut_calls(2) [OF f] show ?thesis
    by (auto simp: fetches_append)
qed

lemma sendRequest_fulfilled:
  assumes "requestInfo request = Inr info"
  shows "\<exists>r. fst (sendRequest this net request) = Inr r"
proof (cases "arrayProperties this = None \<or> arrayProperties this = Some []")
  case True
  then show ?thesis by (auto simp: sendRequest_def)
next
  case False
  then obtain propsList where a: "arrayProperties this = Some propsList" "propsList \<noteq> []"
    by auto
  obtain promises calls where f: "fanOut net info request 0 propsList = (promises, calls)"
    by fastforce
  from sendRequest_sent [OF a assms f] show ?thesis by auto
qed

section \<open>\<open>scrobble\<close>\<close>

text \<open>
  For a non-empty list of songs \<open>s # rest\<close> and any flag, \<open>scrobble\<close> enters \<open>sendRequest\<close>
  exactly once, with a request whose \<open>song\<close> is the first song and whose \<open>songs\<close> and
  \<open>currentlyPlaying\<close> are the list and the flag.  When that call is fulfilled with an
  outcome, \<open>scrobble\<close> is fulfilled with the outcome repeated once per song; the call is
  fulfilled whenever the serialised request holds no code unit above \<open>0xFF\<close>.
\<close>

lemma scrobble_one_dispatch:
  "dispatches (snd (scrobble this net now (s # rest) playing)) =
     [\<lparr>eventName = str ''scrobble'', time = now,
       data = \<lparr>song = s, songs = Some (s # rest), isLoved = None,
               currentlyPlaying = Some playing\<rparr>\<rparr>]
   \<and> (fst (sendRequest this net
          \<lparr>eventName = str ''scrobble'', time = now,
           data = \<lparr>song = s, songs = Some (s # rest), isLoved = None,
                   currentlyPlaying = Some playing\<rparr>\<rparr>) = Inr outcome
      \<longrightarrow> fst (scrobble this net now (s # rest) playing)
            = Inr (replicate (length (s # rest)) outcome))
   \<and> ((\<forall>c \<in> set (ToString_opt (JSON_stringify (request_value
          \<lparr>eventName = str ''scrobble'', time = now,
           data = \<lparr>song = s, songs = Some (s # rest), isLoved = None,
                   currentlyPlaying = Some playing\<rparr>\<rparr>))). c \<le> 0xFF)
      \<longrightarrow> (\<exists>r. fst (scrobble this net now (s # rest) playing)
                 = Inr (replicate (length (s # rest)) r)))"
proof -
  let ?req = "\<lparr>eventName = str ''scrobble'', time = now,
               data = \<lparr>song = s, songs = Some (s # rest), isLoved = None,
                       currentlyPlaying = Some playing\<rparr>\<rparr>"
  have req: "scrobbleRequest now (s # rest) playing = ?req"
    by (simp add: scrobbleRequest_def element_def)
  have ev: "snd (scrobble this net now (s # rest) playing) = snd (sendRequest this net ?req)"
    unfolding scrobble_def req by (simp split: prod.splits sum.splits)
  have one: "dispatches (snd (scrobble this net now (s # rest) playing)) = [?req]"
    unfolding ev by (rule sendRequest_dispatches)
  have rep: "fst (scrobble this net now (s # rest) playing)
      = Inr (replicate (length (s # rest)) r)"
    if "fst (sendRequest this net ?req) = Inr r" for r
    using that unfolding scrobble_def req by (auto split: prod.splits sum.splits)
  have ex: "\<exists>r. fst (scrobble this net now (s # rest) playing)
      = Inr (replicate (length (s # rest)) r)"
    if "\<forall>c \<in> set (ToString_opt (JSON_stringify (request_value ?req))). c \<le> 0xFF"
  proof -
    from that obtain info where "requestInfo ?req = Inr info"
      using requestInfo_Inr [of ?req] by blast
    from sendRequest_fulfilled [OF this] obtain r where
      "fst (sendRequest this net ?req) = Inr r" ..
    from rep [OF this] show ?thesis ..
  qed
  from one rep ex show ?thesis by blast
qed

lemma scrobble_one_dispatch_example:
  "fst (scrobble example_scrobbler always_200 1700000000000
          [JStr (str ''A''), JStr (str ''B'')] True) = Inr [RESULT_OK, RESULT_OK]"
proof -
  let ?req = "\<lparr>eventName = str ''scrobble'', time = 1700000000000,
               data = \<lparr>song = JStr (str ''A''),
                       songs = Some [JStr (str ''A''), JStr (str ''B'')], isLoved = None,
                       currentlyPlaying = Some True\<rparr>\<rparr>"
  have "\<exists>info. requestInfo ?req = Inr info"
    unfolding requestInfo_Inr by (simp add: stringify_simps)
  then obtain info where i: "requestInfo ?req = Inr info" ..
  have a: "arrayProperties example_scrobbler
      = Some [\<lparr>applicationName = str ''octo/music'', userApiUrl = str ''token''\<rparr>]"
    by (simp add: example_scrobbler_def)
  obtain promises calls where
    f: "fanOut always_200 info ?req 0
          [\<lparr>applicationName = str ''octo/music'', userApiUrl = str ''token''\<rparr>]
        = (promises, calls)"
    by fastforce
  have "fst (sendRequest example_scrobbler always_200 ?req) = Inr RESULT_OK"
    using fanOut_shape [OF f] i f a
    by (simp add: sendRequest_def always_200_def timeoutPromise_def)
  with scrobble_one_dispatch
         [of example_scrobbler always_200 1700000000000 "JStr (str ''A'')"
             "[JStr (str ''B'')]" True RESULT_OK]
  show ?thesis
    by (simp add: numeral_2_eq_2)
qed

text \<open>
  C8: for every non-empty list of \<open>n\<close> songs and every flag, \<open>scrobble\<close> is to issue one
  dispatch call, carrying the first song, the list and the flag, and to return an array
  of length \<open>n\<close> that holds the outcome of that call in every slot.  The code does so
  whenever the call is fulfilled (the lemma above), but for a list with one song whose
  title is the character U+66F2 it issues the call and returns no array: \<open>btoa\<close> throws
  inside \<open>sendRequest\<close>, before the \<open>try\<close> block, and \<open>scrobble\<close> is rejected with that
  exception.
\<close>

theorem scrobble_non_latin1_rejected:
  "fst (scrobble example_scrobbler always_200 1700000000000 [example_song] True)
     = Inl InvalidCharacterError
   \<and> dispatches (snd (scrobble example_scrobbler always_200 1700000000000
         [example_song] True))
     = [\<lparr>eventName = str ''scrobble'', time = 1700000000000,
         data = \<lparr>song = example_song, songs = Some [example_song], isLoved = None,
                 currentlyPlaying = Some True\<rparr>\<rparr>]
   \<and> fetches (snd (scrobble example_scrobbler always_200 1700000000000
         [example_song] True)) = []"
  by (simp add: scrobble_def scrobbleRequest_def element_def example_song_def
      example_scrobbler_def sendRequest_def requestInfo_def requestBody_def btoa_def
      stringify_simps split: prod.splits)

text \<open>
  C10: with at least one destination, \<open>scrobble\<close> on an empty list of songs still enters
  \<open>sendRequest\<close> exactly once, with \<open>song\<close> undefined and an empty \<open>songs\<close>; the request
  goes out to every destination, the call is fulfilled with some outcome, and \<open>scrobble\<close>
  is fulfilled with the empty array whatever that outcome is.
\<close>

theorem scrobble_empty:
  assumes "arrayProperties this = Some propsList" and "propsList \<noteq> []"
  shows "\<exists>outcome events.
           sendRequest this net
             \<lparr>eventName = str ''scrobble'', time = now,
              data = \<lparr>song = JUndefined, songs = Some [], isLoved = None,
                      currentlyPlaying = Some playing\<rparr>\<rparr> = (Inr outcome, events)
           \<and> scrobble this net now [] playing = (Inr [], events)
           \<and> dispatches events =
               [\<lparr>eventName = str ''scrobble'', time = now,
                 data = \<lparr>song = JUndefined, songs = Some [], isLoved = None,
                         currentlyPlaying = Some playing\<rparr>\<rparr>]
           \<and> length (fetches events) = length propsList"
proof -
  let ?req = "\<lparr>eventName = str ''scrobble'', time = now,
               data = \<lparr>song = JUndefined, songs = Some [], isLoved = None,
                       currentlyPlaying = Some playing\<rparr>\<rparr>"
  have req: "scrobbleRequest now [] playing = ?req"
    by (simp add: scrobbleRequest_def element_def)
  from scrobble_empty_body [of now playing] obtain info where
    i: "requestInfo ?req = Inr info"
    unfolding req ..
  from sendRequest_fulfilled [OF i] obtain outcome where
    "fst (sendRequest this net ?req) = Inr outcome" ..
  then have s: "sendRequest this net ?req = (Inr outcome, snd (sendRequest this net ?req))"
    by (simp add: prod_eq_iff)
  have "scrobble this net now [] playing = (Inr [], snd (sendRequest this net ?req))"
    unfolding scrobble_def req by (subst s) simp
  moreover have "dispatches (snd (sendRequest this net ?req)) = [?req]"
    by (rule sendRequest_dispatches)
  moreover have "length (fetches (snd (sendRequest this net ?req))) = length propsList"
    using sendRequest_fetches [OF assms i] by simp
  ultimately show ?thesis using s by blast
qed

theorem scrobble_empty_witness:
  "fst (scrobble example_scrobbler always_200 1700000000000 [] True) = Inr []
   \<and> dispatches (snd (scrobble example_scrobbler always_200 1700000000000 [] True)) =
       [\<lparr>eventName = str ''scrobble'', time = 1700000000000,
         data = \<lparr>song = JUndefined, songs = Some [], isLoved = None,
                 currentlyPlaying = Some True\<rparr>\<rparr>]
   \<and> length (fetches (snd (scrobble example_scrobbler always_200 1700000000000 [] True))) = 1"
proof -
  have a: "arrayProperties example_scrobbler
      = Some [\<lparr>applicationName = str ''octo/music'', userApiUrl = str ''token''\<rparr>]"
    and n: "[\<lparr>applicationName = str ''octo/music'', userApiUrl = str ''token''\<rparr>] \<noteq> []"
    by (simp_all add: example_scrobbler_def)
  from scrobble_empty [OF a n, of always_200 1700000000000 True] show ?thesis
    by auto
qed

section \<open>The calendar fields of a time value\<close>

text \<open>
  The year computed from the day number is the year of ECMA-262: the largest \<open>y\<close> whose
  first day is not after the given day.
\<close>

lemma DayFromYear_cycle:
  "DayFromYear (1601 + 400 * k + yy)
     = 146097 * k + (365 * yy + yy div 4 - yy div 100 + yy div 400) - 134774"
proof -
  have "1601 + 400 * k + yy - 1969 = yy + 4 * (100 * k - 92)" by simp
  then have a: "(1601 + 400 * k + yy - 1969) div 4 = 100 * k - 92 + yy div 4"
    by (simp only: div_mult_self2 [of 4 yy "100 * k - 92", simplified])
  have "1601 + 400 * k + yy - 1901 = yy + 100 * (4 * k - 3)" by simp
  then have b: "(1601 + 400 * k + yy - 1901) div 100 = 4 * k - 3 + yy div 100"
    by (simp only: div_mult_self2 [of 100 yy "4 * k - 3", simplified])
  have "1601 + 400 * k + yy - 1601 = yy + 400 * k" by simp
  then have c: "(1601 + 400 * k + yy - 1601) div 400 = k + yy div 400"
    by (simp only: div_mult_self2 [of 400 yy k, simplified])
  show ?thesis unfolding DayFromYear_def a b c by simp
qed

lemma cycle_year_div:
  fixes c q a :: int
  assumes "0 \<le> c" "c \<le> 3" "0 \<le> q" "q \<le> 24" "0 \<le> a" "a \<le> 3"
  shows "(100 * c + 4 * q + a) div 4 = 25 * c + q"
    and "(100 * c + 4 * q + a) div 100 = c"
    and "(100 * c + 4 * q + a) div 400 = 0"
proof -
  have "100 * c + 4 * q + a = a + 4 * (25 * c + q)" by simp
  then have "(100 * c + 4 * q + a) div 4 = 25 * c + q + a div 4"
    by (simp only: div_mult_self2 [of 4 a "25 * c + q", simplified])
  moreover have "a div 4 = 0" using assms by simp
  ultimately show "(100 * c + 4 * q + a) div 4 = 25 * c + q" by simp
  have "100 * c + 4 * q + a = (4 * q + a) + 100 * c" by simp
  then have "(100 * c + 4 * q + a) div 100 = c + (4 * q + a) div 100"
    by (simp only: div_mult_self2 [of 100 "4 * q + a" c, simplified])
  moreover have "(4 * q + a) div 100 = 0" using assms by simp
  ultimately show "(100 * c + 4 * q + a) div 100 = c" by simp
  show "(100 * c + 4 * q + a) div 400 = 0" using assms by simp
qed

lemma days_to_decomp:
  fixes c q a :: int
  assumes "0 \<le> c" "c \<le> 3" "0 \<le> q" "q \<le> 24" "0 \<le> a" "a \<le> 3"
  shows "days_to (100 * c + 4 * q + a) = 36524 * c + 1461 * q + 365 * a"
  unfolding days_to_def cycle_year_div [OF assms] by simp

lemma year_in_cycle:
  fixes r :: int
  assumes "0 \<le> r" and "r < 146097"
  defines "c \<equiv> min (r div 36524) 3"
  defines "q \<equiv> (r - c * 36524) div 1461"
  defines "a \<equiv> min ((r - c * 36524 - q * 1461) div 365) 3"
  shows "days_to (100 * c + 4 * q + a) \<le> r \<and> r < days_to (100 * c + 4 * q + a + 1)"
proof -
  have c: "0 \<le> c" "c \<le> 3" "36524 * c \<le> r" "c < 3 \<longrightarrow> r < 36524 * c + 36524"
    using assms(1,2) unfolding c_def by arith+
  define r2 where "r2 = r - c * 36524"
  have r2: "0 \<le> r2" "r2 \<le> 36524" "c < 3 \<longrightarrow> r2 < 36524"
    using c assms(2) unfolding r2_def by arith+
  have q: "0 \<le> q" "q \<le> 24" "1461 * q \<le> r2" "r2 < 1461 * q + 1461"
    using r2(1,2) unfolding q_def r2_def [symmetric] by arith+
  define r3 where "r3 = r2 - q * 1461"
  have r3: "0 \<le> r3" "r3 < 1461"
    using q unfolding r3_def by arith+
  have a_def': "a = min (r3 div 365) 3"
    unfolding a_def r3_def r2_def ..
  have a: "0 \<le> a" "a \<le> 3" "365 * a \<le> r3" "a < 3 \<longrightarrow> r3 < 365 * a + 365"
    using r3 unfolding a_def' by arith+
  have r: "r = 36524 * c + 1461 * q + r3"
    unfolding r3_def r2_def by simp
  have low: "days_to (100 * c + 4 * q + a) \<le> r"
    unfolding days_to_decomp [OF c(1,2) q(1,2) a(1,2)] using r a(3) by simp
  have up: "r < days_to (100 * c + 4 * q + a + 1)"
  proof (cases "a < 3")
    case True
    then have "a + 1 \<le> 3" "0 \<le> a + 1" using a by simp_all
    from days_to_decomp [OF c(1,2) q(1,2) this(2,1)]
    have "days_to (100 * c + 4 * q + a + 1) = 36524 * c + 1461 * q + 365 * (a + 1)"
      by (simp add: add.assoc)
    with True a(4) r show ?thesis by simp
  next
    case False
    with a have a3: "a = 3" by simp
    show ?thesis
    proof (cases "q < 24")
      case True
      then have "q + 1 \<le> 24" "0 \<le> q + 1" using q by simp_all
      from days_to_decomp [OF c(1,2) this(2,1), of 0]
      have "days_to (100 * c + 4 * q + a + 1) = 36524 * c + 1461 * (q + 1)"
        unfolding a3 by (simp add: algebra_simps)
      with r r3 show ?thesis by simp
    next
      case False
      with q have q24: "q = 24" by simp
      show ?thesis
      proof (cases "c < 3")
        case True
        then have "c + 1 \<le> 3" "0 \<le> c + 1" using c by simp_all
        from days_to_decomp [OF this(2,1), of 0 0]
        have "days_to (100 * c + 4 * q + a + 1) = 36524 * (c + 1)"
          unfolding a3 q24 by (simp add: algebra_simps)
        with True c(4) show ?thesis by simp
      next
        case False
        with c have "c = 3" by simp
        then have "days_to (100 * c + 4 * q + a + 1) = 146097"
          unfolding a3 q24 by (simp add: days_to_def)
        with assms(2) show ?thesis by simp
      qed
    qed
  qed
  from low up show ?thesis ..
qed

lemma YearFromDay_bounds:
  "DayFromYear (YearFromDay d) \<le> d \<and> d < DayFromYear (YearFromDay d + 1)"
proof -
  define n where "n = d + 134774"
  define k where "k = n div 146097"
  define r where "r = n mod 146097"
  define c where "c = min (r div 36524) 3"
  define q where "q = (r - c * 36524) div 1461"
  define a where "a = min ((r - c * 36524 - q * 1461) div 365) 3"
  have r: "0 \<le> r" "r < 146097" unfolding r_def by simp_all
  have n: "n = 146097 * k + r" unfolding k_def r_def by (simp only: mult_div_mod_eq)
  have y: "YearFromDay d = 1601 + 400 * k + (100 * c + 4 * q + a)"
    unfolding a_def q_def c_def r_def k_def n_def
    by (simp only: YearFromDay_def Let_def add.assoc)
  have y1: "YearFromDay d + 1 = 1601 + 400 * k + (100 * c + 4 * q + a + 1)"
    unfolding y by (simp only: add.assoc)
  from year_in_cycle [OF r] have
    "days_to (100 * c + 4 * q + a) \<le> r \<and> r < days_to (100 * c + 4 * q + a + 1)"
    unfolding c_def q_def a_def .
  then show ?thesis
    unfolding y1 unfolding y DayFromYear_cycle days_to_def [symmetric]
    using n unfolding n_def by simp
qed



lemma div_step:
  fixes x m :: int
  assumes "0 < m"
  shows "(x + 1) div m = x div m + (if (x + 1) mod m = 0 then 1 else 0)"
proof (cases "(x + 1) mod m = 0")
  case True
  then obtain a where a: "x + 1 = m * a" by (auto simp: mod_eq_0_iff_dvd)
  then have "x = m * (a - 1) + (m - 1)" by (simp add: algebra_simps)
  moreover have "0 \<le> m - 1" "m - 1 < m" using assms by simp_all
  ultimately have "x div m = a - 1" by (rule int_div_pos_eq)
  with a assms True show ?thesis by simp
next
  case False
  have "x + 1 = m * ((x + 1) div m) + (x + 1) mod m" by simp
  moreover have "0 \<le> (x + 1) mod m" "(x + 1) mod m < m"
    using assms by (simp_all add: pos_mod_sign pos_mod_bound)
  ultimately have "x = m * ((x + 1) div m) + ((x + 1) mod m - 1)"
    and "0 \<le> (x + 1) mod m - 1" and "(x + 1) mod m - 1 < m"
    using False by linarith+
  then have "x div m = (x + 1) div m" by (rule int_div_pos_eq)
  with False show ?thesis by simp
qed

lemma DayFromYear_step: "DayFromYear (y + 1) = DayFromYear y + DaysInYear y"
proof -
  define A B C where "A = (y - 1969) div 4" and "B = (y - 1901) div 100"
    and "C = (y - 1601) div 400"
  define l4 l100 l400 where "l4 \<longleftrightarrow> y mod 4 = 0" and "l100 \<longleftrightarrow> y mod 100 = 0"
    and "l400 \<longleftrightarrow> y mod 400 = 0"
  have m4: "(y - 1969 + 1) mod 4 = y mod 4"
    using mod_mult_self2 [of y 4 "- 492"] by simp
  have m100: "(y - 1901 + 1) mod 100 = y mod 100"
    using mod_mult_self2 [of y 100 "- 19"] by simp
  have m400: "(y - 1601 + 1) mod 400 = y mod 400"
    using mod_mult_self2 [of y 400 "- 4"] by simp
  have d4: "(y - 1969 + 1) div 4 = A + (if l4 then 1 else 0)"
    unfolding A_def l4_def m4 [symmetric] by (rule div_step) simp
  have d100: "(y - 1901 + 1) div 100 = B + (if l100 then 1 else 0)"
    unfolding B_def l100_def m100 [symmetric] by (rule div_step) simp
  have d400: "(y - 1601 + 1) div 400 = C + (if l400 then 1 else 0)"
    unfolding C_def l400_def m400 [symmetric] by (rule div_step) simp
  have "(100::int) dvd 400" and "(4::int) dvd 100"
    by simp_all
  then have i1: "l400 \<longrightarrow> l100" and i2: "l100 \<longrightarrow> l4"
    unfolding l400_def l100_def l4_def mod_eq_0_iff_dvd
    by (blast intro: dvd_trans)+
  have e: "y + 1 - 1969 = y - 1969 + 1" "y + 1 - 1901 = y - 1901 + 1"
    "y + 1 - 1601 = y - 1601 + 1"
    by simp_all
  have next_year: "DayFromYear (y + 1) =
      365 * (y + 1 - 1970) + (A + (if l4 then 1 else 0)) - (B + (if l100 then 1 else 0))
        + (C + (if l400 then 1 else 0))"
    unfolding DayFromYear_def e d4 d100 d400 ..
  have this_year: "DayFromYear y = 365 * (y - 1970) + A - B + C"
    unfolding DayFromYear_def A_def B_def C_def ..
  have len: "DaysInYear y =
      (if \<not> l4 then 365 else if \<not> l100 then 366 else if \<not> l400 then 365 else 366)"
    unfolding DaysInYear_def l4_def l100_def l400_def by simp
  show ?thesis
    unfolding next_year this_year len using i1 i2 by auto
qed

lemma DaysInYear_cases: "DaysInYear y = 365 \<or> DaysInYear y = 366"
  by (simp add: DaysInYear_def)

lemma DayFromYear_mono: "y \<le> z \<Longrightarrow> DayFromYear y \<le> DayFromYear z"
proof (induction z rule: int_ge_induct)
  case base
  then show ?case by simp
next
  case (step i)
  from DaysInYear_cases [of i] have "0 \<le> DaysInYear i" by auto
  with step.IH show ?case
    unfolding DayFromYear_step by simp
qed

lemma YearFromDay_largest:
  assumes "DayFromYear y \<le> d"
  shows "y \<le> YearFromDay d"
proof (rule ccontr)
  assume "\<not> y \<le> YearFromDay d"
  then have "YearFromDay d + 1 \<le> y" by simp
  from DayFromYear_mono [OF this] assms YearFromDay_bounds [of d] show False
    by simp
qed




lemma YearFromDay_eqI:
  assumes "DayFromYear y \<le> d" and "d < DayFromYear (y + 1)"
  shows "YearFromDay d = y"
proof (rule antisym)
  show "y \<le> YearFromDay d" using assms(1) by (rule YearFromDay_largest)
  show "YearFromDay d \<le> y"
  proof (rule ccontr)
    assume "\<not> YearFromDay d \<le> y"
    then have "y + 1 \<le> YearFromDay d" by simp
    from DayFromYear_mono [OF this] YearFromDay_bounds [of d] assms(2) show False
      by simp
  qed
qed

section \<open>Replacing the placeholders of the URL template\<close>

text \<open>
  A replacement text in which no dollar sign starts a replacement pattern is inserted as
  it is.  Replacing a placeholder of the URL template by such a text puts the text where
  the placeholder was, provided no opening brace occurs before the placeholder.
\<close>

lemma indexOf_first:
  "c \<notin> set pre \<Longrightarrow> indexOf (c # pat) (pre @ c # pat @ post) = Some (length pre)"
proof (induction pre)
  case Nil
  then show ?case by simp
next
  case (Cons x pre)
  then have "x \<noteq> c" and "c \<notin> set pre" by auto
  with Cons.IH show ?case by simp
qed

lemma GetSubstitution_no_pattern:
  "no_replacement_pattern rep \<Longrightarrow> GetSubstitution matched preceding following rep = rep"
  by (induction matched preceding following rep rule: GetSubstitution.induct) auto

lemma no_pattern_no_dollar: "0x24 \<notin> set t \<Longrightarrow> no_replacement_pattern t"
  by (induction t rule: no_replacement_pattern.induct) auto

lemma no_pattern_append_left:
  "0x24 \<notin> set a \<Longrightarrow> no_replacement_pattern (a @ b) = no_replacement_pattern b"
proof (induction a)
  case Nil
  then show ?case by simp
next
  case (Cons x a)
  then have x: "x \<noteq> 0x24" and a: "0x24 \<notin> set a" by auto
  show ?case
  proof (cases "a @ b")
    case Nil
    then show ?thesis by simp
  next
    case (Cons d ds)
    with x Cons.IH [OF a] show ?thesis by simp
  qed
qed

lemma no_pattern_append_json:
  "no_replacement_pattern (e @ str ''.json'') = no_replacement_pattern e"
  by (induction e rule: no_replacement_pattern.induct) (simp_all add: str_def)

lemma replace_first:
  assumes "c \<notin> set pre" and "no_replacement_pattern v"
  shows "replace (pre @ c # pat @ post) (c # pat) (Some v) = pre @ v @ post"
  using assms
  by (simp add: replace_def indexOf_first GetSubstitution_no_pattern ToString_opt_def Let_def)

lemma split_plain: "sep \<notin> set s \<Longrightarrow> split sep s = [s]"
  by (induction s) auto

lemma split_first:
  "sep \<notin> set s \<Longrightarrow> split sep (s @ sep # rest) = s # split sep rest"
  by (induction s) auto

lemma split_owner_repo:
  assumes "0x2F \<notin> set owner" and "0x2F \<notin> set repo"
  shows "index (split 0x2F (owner @ str ''/'' @ repo)) 0 = Some owner"
    and "index (split 0x2F (owner @ str ''/'' @ repo)) 1 = Some repo"
  using assms by (simp_all add: str_def split_first split_plain index_def)

lemma ToString_number_no_dollar: "0x24 \<notin> set (ToString_number n)"
  using Number_toString_no_dollar
  by (cases n) (simp_all add: ToString_number_def str_def)

text \<open>
  The numbers and separators of the path text hold no dollar sign, so the path text
  holds a replacement pattern only if the event name does.
\<close>

lemma storagePath_no_pattern:
  assumes "no_replacement_pattern (eventName request)"
  shows "no_replacement_pattern (storagePath request)"
proof -
  define a where "a = ToString_number (getUTCFullYear (new_Date (time request))) @ str ''/''
         @ ToString_number (getUTCMonth (new_Date (time request))) @ str ''/''
         @ ToString_number (getUTCDay (new_Date (time request))) @ str ''/''
         @ ToString_number (getTime (new_Date (time request))) @ str ''-''"
  have "0x24 \<notin> set a"
    unfolding a_def using ToString_number_no_dollar by (simp add: str_def)
  then have "no_replacement_pattern (a @ (eventName request @ str ''.json''))
      = no_replacement_pattern (eventName request @ str ''.json'')"
    by (rule no_pattern_append_left)
  moreover have "storagePath request = a @ (eventName request @ str ''.json'')"
    unfolding a_def by (simp add: storagePath_def Let_def)
  ultimately show ?thesis
    using assms by (simp only: no_pattern_append_json)
qed

text \<open>
  For a destination named \<open>owner/repo\<close> with plain names, the URL is the template with
  the three placeholders filled in.
\<close>

lemma targetUrl_no_pattern:
  assumes "applicationName p = owner @ str ''/'' @ repo"
    and "0x2F \<notin> set owner" and "0x2F \<notin> set repo"
    and "0x24 \<notin> set owner" and "0x24 \<notin> set repo"
    and "0x7B \<notin> set owner" and "0x7B \<notin> set repo"
    and "no_replacement_pattern (eventName request)"
  shows "targetUrl p request =
           str ''https://api.github.com/repos/'' @ owner @ str ''/'' @ repo
           @ str ''/contents/'' @ storagePath request"
proof -
  have 1: "replace apiUrl (str ''{owner}'') (Some owner)
      = str ''https://api.github.com/repos/'' @ owner @ str ''/{repo}/contents/{path}''"
    using replace_first [of "0x7B" "str ''https://api.github.com/repos/''" owner
        "str ''owner}''" "str ''/{repo}/contents/{path}''"] no_pattern_no_dollar [OF assms(4)]
    by (simp add: apiUrl_def baseUrl_def str_def)
  have 2: "replace (str ''https://api.github.com/repos/'' @ owner @ str ''/{repo}/contents/{path}'')
        (str ''{repo}'') (Some repo)
      = str ''https://api.github.com/repos/'' @ owner @ str ''/'' @ repo
        @ str ''/contents/{path}''"
    using replace_first [of "0x7B" "str ''https://api.github.com/repos/'' @ owner @ str ''/''"
        repo "str ''repo}''" "str ''/contents/{path}''"] no_pattern_no_dollar [OF assms(5)]
      assms(6)
    by (simp add: str_def)
  have 3: "replace (str ''https://api.github.com/repos/'' @ owner @ str ''/'' @ repo
          @ str ''/contents/{path}'') (str ''{path}'') (Some (storagePath request))
      = str ''https://api.github.com/repos/'' @ owner @ str ''/'' @ repo
        @ str ''/contents/'' @ storagePath request"
    using replace_first [of "0x7B"
        "str ''https://api.github.com/repos/'' @ owner @ str ''/'' @ repo @ str ''/contents/''"
        "storagePath request" "str ''path}''" "[]"] assms(6,7)
      storagePath_no_pattern [OF assms(8)]
    by (simp add: str_def)
  show ?thesis
    unfolding targetUrl_def assms(1) split_owner_repo [OF assms(2,3)] 1 2 3 ..
qed

lemma targetUrl_plain:
  assumes "applicationName p = owner @ str ''/'' @ repo"
    and "0x2F \<notin> set owner" and "0x2F \<notin> set repo"
    and "0x24 \<notin> set owner" and "0x24 \<notin> set repo"
    and "0x7B \<notin> set owner" and "0x7B \<notin> set repo"
    and "0x24 \<notin> set (eventName request)"
  shows "targetUrl p request =
           str ''https://api.github.com/repos/'' @ owner @ str ''/'' @ repo
           @ str ''/contents/'' @ storagePath request"
  using assms(1-7) no_pattern_no_dollar [OF assms(8)] by (rule targetUrl_no_pattern)








section \<open>The storage path\<close>






section \<open>The requests sent to the destinations\<close>

lemma requestInfo_value:
  assumes "\<forall>c \<in> set (ToString_opt (JSON_stringify (request_value request))). c \<le> 0xFF"
  shows "requestInfo request =
           Inr \<lparr>method = str ''PUT'',
                headers = [(str ''Content-Type'', str ''application/json'')],
                body = ToString_opt (JSON_stringify
                  (JObj [(str ''message'',
                            JStr (eventName request @ str '' at ''
                                  @ Number_toString (time request))),
                         (str ''committer'',
                            JObj [(str ''name'', JStr (str ''WebScrobbler'')),
                                  (str ''email'', JStr (str ''webscrobbler@github.com''))]),
                         (str ''content'',
                            JStr (base64_encode (map unat
                              (ToString_opt (JSON_stringify (request_value request))))))]))\<rparr>"
proof -
  from assms have "\<not> (\<exists>c \<in> set (ToString_opt (JSON_stringify (request_value request))). 0xFF < c)"
    by (auto simp: not_less)
  then show ?thesis
    by (simp add: requestInfo_def requestBody_def btoa_def)
qed

text \<open>
  Within one call of \<open>sendRequest\<close> over a non-empty destination list, when the
  serialised request holds no code unit above \<open>0xFF\<close> (so that \<open>btoa\<close> does not throw),
  \<open>fetch\<close> is called once per destination, in order, every time with the method
  \<open>PUT\<close> and with one and the same body: the JSON text of the object with the message
  \<open>eventName at time\<close>, the fixed committer and the Base64 text of the serialised
  request.  Only the URL and the \<open>Authorization\<close> header depend on the destination: the
  header is \<open>Bearer\<close> followed by the destination's token, and the URL is the template
  with its placeholders replaced by the first two segments of the destination's
  \<open>applicationName\<close> and by the storage path; for a name \<open>owner/repo\<close> without further
  slashes, dollar signs or braces, and an event name without dollar signs, that is
  \<open>https://api.github.com/repos/owner/repo/contents/path\<close>.
\<close>

lemma sendRequest_fan_out:
  assumes "arrayProperties this = Some propsList" and "propsList \<noteq> []"
    and "\<forall>c \<in> set (ToString_opt (JSON_stringify (request_value request))). c \<le> 0xFF"
  shows "fetches (snd (sendRequest this net request)) =
           map (\<lambda>p. (targetUrl p request,
                     \<lparr>method = str ''PUT'',
                      headers = [(str ''Content-Type'', str ''application/json''),
                                 (str ''Authorization'', str ''Bearer '' @ userApiUrl p)],
                      body = ToString_opt (JSON_stringify
                        (JObj [(str ''message'',
                                  JStr (eventName request @ str '' at ''
                                        @ Number_toString (time request))),
                               (str ''committer'',
                                  JObj [(str ''name'', JStr (str ''WebScrobbler'')),
                                        (str ''email'', JStr (str ''webscrobbler@github.com''))]),
                               (str ''content'',
                                  JStr (base64_encode (map unat
                                    (ToString_opt (JSON_stringify
                                       (request_value request))))))]))\<rparr>))
             propsList
         \<and> (\<forall>p \<in> set propsList. \<forall>owner repo.
               applicationName p = owner @ str ''/'' @ repo
               \<and> 0x2F \<notin> set owner \<and> 0x2F \<notin> set repo
               \<and> 0x24 \<notin> set owner \<and> 0x24 \<notin> set repo
               \<and> 0x7B \<notin> set owner \<and> 0x7B \<notin> set repo
               \<and> 0x24 \<notin> set (eventName request)
               \<longrightarrow> targetUrl p request =
                     str ''https://api.github.com/repos/'' @ owner @ str ''/'' @ repo
                     @ str ''/contents/'' @ storagePath request)"
proof
  show "fetches (snd (sendRequest this net request)) =
           map (\<lambda>p. (targetUrl p request,
                     \<lparr>method = str ''PUT'',
                      headers = [(str ''Content-Type'', str ''application/json''),
                                 (str ''Authorization'', str ''Bearer '' @ userApiUrl p)],
                      body = ToString_opt (JSON_stringify
                        (JObj [(str ''message'',
                                  JStr (eventName request @ str '' at ''
                                        @ Number_toString (time request))),
                               (str ''committer'',
                                  JObj [(str ''name'', JStr (str ''WebScrobbler'')),
                                        (str ''email'', JStr (str ''webscrobbler@github.com''))]),
                               (str ''content'',
                                  JStr (base64_encode (map unat
                                    (ToString_opt (JSON_stringify
                                       (request_value request))))))]))\<rparr>))
             propsList"
    unfolding sendRequest_fetches [OF assms(1,2) requestInfo_value [OF assms(3)]]
    by (simp add: fetchArgs_def)
  show "\<forall>p \<in> set propsList. \<forall>owner repo.
               applicationName p = owner @ str ''/'' @ repo
               \<and> 0x2F \<notin> set owner \<and> 0x2F \<notin> set repo
               \<and> 0x24 \<notin> set owner \<and> 0x24 \<notin> set repo
               \<and> 0x7B \<notin> set owner \<and> 0x7B \<notin> set repo
               \<and> 0x24 \<notin> set (eventName request)
               \<longrightarrow> targetUrl p request =
                     str ''https://api.github.com/repos/'' @ owner @ str ''/'' @ repo
                     @ str ''/contents/'' @ storagePath request"
    using targetUrl_plain by blast
qed

lemma sendRequest_fan_out_example:
  "fetches (snd (sendRequest
     \<lparr>arrayProperties =
        Some [\<lparr>applicationName = str ''octo/music'', userApiUrl = str ''t1''\<rparr>,
              \<lparr>applicationName = str ''octo/backup'', userApiUrl = str ''t2''\<rparr>],
      REQUEST_TIMEOUT = 15000\<rparr>
     always_200
     \<lparr>eventName = str ''paused'', time = 1700000000000,
      data = \<lparr>song = JStr (str ''Song''), songs = None, isLoved = None,
              currentlyPlaying = None\<rparr>\<rparr>))
   = [(str ''https://api.github.com/repos/octo/music/contents/2023/10/2/1700000000000-paused.json'',
       \<lparr>method = str ''PUT'',
        headers = [(str ''Content-Type'', str ''application/json''),
                   (str ''Authorization'', str ''Bearer t1'')],
        body = ToString_opt (JSON_stringify
          (JObj [(str ''message'', JStr (str ''paused at 1700000000000'')),
                 (str ''committer'',
                    JObj [(str ''name'', JStr (str ''WebScrobbler'')),
                          (str ''email'', JStr (str ''webscrobbler@github.com''))]),
                 (str ''content'', JStr (str
  ''eyJldmVudE5hbWUiOiJwYXVzZWQiLCJ0aW1lIjoxNzAwMDAwMDAwMDAwLCJkYXRhIjp7InNvbmciOiJTb25nIn19''))]))\<rparr>),
      (str ''https://api.github.com/repos/octo/backup/contents/2023/10/2/1700000000000-paused.json'',
       \<lparr>method = str ''PUT'',
        headers = [(str ''Content-Type'', str ''application/json''),
                   (str ''Authorization'', str ''Bearer t2'')],
        body = ToString_opt (JSON_stringify
          (JObj [(str ''message'', JStr (str ''paused at 1700000000000'')),
                 (str ''committer'',
                    JObj [(str ''name'', JStr (str ''WebScrobbler'')),
                          (str ''email'', JStr (str ''webscrobbler@github.com''))]),
                 (str ''content'', JStr (str
  ''eyJldmVudE5hbWUiOiJwYXVzZWQiLCJ0aW1lIjoxNzAwMDAwMDAwMDAwLCJkYXRhIjp7InNvbmciOiJTb25nIn19''))]))\<rparr>)]"
proof -
  let ?p1 = "\<lparr>applicationName = str ''octo/music'', userApiUrl = str ''t1''\<rparr>"
  let ?p2 = "\<lparr>applicationName = str ''octo/backup'', userApiUrl = str ''t2''\<rparr>"
  let ?me = "\<lparr>arrayProperties = Some [?p1, ?p2], REQUEST_TIMEOUT = 15000\<rparr>"
  let ?req = "\<lparr>eventName = str ''paused'', time = 1700000000000,
               data = \<lparr>song = JStr (str ''Song''), songs = None, isLoved = None,
                       currentlyPlaying = None\<rparr>\<rparr>"
  have a: "arrayProperties ?me = Some [?p1, ?p2]" and n: "[?p1, ?p2] \<noteq> []"
    by simp_all
  have l: "\<forall>c \<in> set (ToString_opt (JSON_stringify (request_value ?req))). c \<le> 0xFF"
    by (simp add: stringify_simps)
  note fan = sendRequest_fan_out [OF a n l, of always_200]
  have "YearFromTime 1700000000000 = 2023" "MonthFromTime 1700000000000 = 10"
    "WeekDay 1700000000000 = 2"
    by code_simp+
  then have path: "storagePath ?req = str ''2023/10/2/1700000000000-paused.json''"
    by (simp add: storagePath_def new_Date_def TimeClip_def getUTCFullYear_def
        getUTCMonth_def getUTCDay_def getTime_def ToString_number_def Number_toString_def
        Number_digits_def
        decimal.simps digit_def str_def)
  have u1: "targetUrl ?p1 ?req =
      str ''https://api.github.com/repos/octo/music/contents/2023/10/2/1700000000000-paused.json''"
  proof -
    have "targetUrl ?p1 ?req =
        str ''https://api.github.com/repos/'' @ str ''octo'' @ str ''/'' @ str ''music''
        @ str ''/contents/'' @ storagePath ?req"
      by (rule targetUrl_plain) (simp_all add: str_def)
    then show ?thesis
      unfolding path by (simp add: str_def)
  qed
  have u2: "targetUrl ?p2 ?req =
      str ''https://api.github.com/repos/octo/backup/contents/2023/10/2/1700000000000-paused.json''"
  proof -
    have "targetUrl ?p2 ?req =
        str ''https://api.github.com/repos/'' @ str ''octo'' @ str ''/'' @ str ''backup''
        @ str ''/contents/'' @ storagePath ?req"
      by (rule targetUrl_plain) (simp_all add: str_def)
    then show ?thesis
      unfolding path by (simp add: str_def)
  qed
  have content: "base64_encode (map unat (ToString_opt (JSON_stringify (request_value ?req))))
      = str ''eyJldmVudE5hbWUiOiJwYXVzZWQiLCJ0aW1lIjoxNzAwMDAwMDAwMDAwLCJkYXRhIjp7InNvbmciOiJTb25nIn19''"
    by (simp add: stringify_simps base64_char_def base64_alphabet_def)
  have message: "eventName ?req @ str '' at '' @ Number_toString (time ?req)
      = str ''paused at 1700000000000''"
    by (simp add: Number_toString_def Number_digits_def isFinite_def decimal.simps digit_def str_def)
  from fan [THEN conjunct1] show ?thesis
    unfolding content message by (simp add: u1 u2) (simp add: str_def)
qed

text \<open>
  C6: within one dispatch call over a non-empty destination list, one request body
  (message, fixed committer, Base64 content) is to be built once and sent unchanged, by
  \<open>PUT\<close>, to every destination, with only the URL and the \<open>Authorization\<close> header
  depending on the destination.  The code does so whenever the body can be built (the
  lemma above), but for a request whose song has the title U+66F2 it builds no body and
  sends nothing to the one configured destination: \<open>btoa\<close> throws before the loop.
\<close>

theorem sendRequest_non_latin1_sends_nothing:
  "arrayProperties example_scrobbler
     = Some [\<lparr>applicationName = str ''octo/music'', userApiUrl = str ''token''\<rparr>]
   \<and> fst (sendRequest example_scrobbler always_200
         \<lparr>eventName = str ''nowplaying'', time = 1700000000000,
          data = \<lparr>song = example_song, songs = None, isLoved = None,
                  currentlyPlaying = None\<rparr>\<rparr>) = Inl InvalidCharacterError
   \<and> fetches (snd (sendRequest example_scrobbler always_200
         \<lparr>eventName = str ''nowplaying'', time = 1700000000000,
          data = \<lparr>song = example_song, songs = None, isLoved = None,
                  currentlyPlaying = None\<rparr>\<rparr>)) = []"
  by (simp add: example_scrobbler_def example_song_def sendRequest_def requestInfo_def
      requestBody_def btoa_def stringify_simps)

section \<open>The encoded request\<close>

text \<open>
  On a string that \<open>btoa\<close> accepts, \<open>atob\<close> undoes it: whenever a content field is
  produced, decoding it gives the serialised request back.
\<close>

lemma encode_split: "base64_encode bs = map base64_char (sextets bs) @ padding bs"
  by (induction bs rule: base64_encode.induct) simp_all

lemma base64_index_alphabet:
  "map (\<lambda>ch. base64_index (of_char ch)) base64_alphabet = map Some [0 ..< 64]"
  by code_simp

lemma base64_index_char: "base64_index (base64_char n) = Some (n mod 64)"
proof -
  have len: "length base64_alphabet = 64"
    by (simp add: base64_alphabet_def)
  have m: "n mod 64 < 64" by simp
  have "base64_index (of_char (base64_alphabet ! (n mod 64)))
      = map (\<lambda>ch. base64_index (of_char ch)) base64_alphabet ! (n mod 64)"
    using m len by simp
  also have "\<dots> = map Some [0 ..< 64] ! (n mod 64)"
    unfolding base64_index_alphabet ..
  also have "\<dots> = Some (n mod 64)"
    using m by (simp del: upt_Suc)
  finally show ?thesis
    unfolding base64_char_def .
qed


lemma base64_char_not_padding: "base64_char n \<noteq> 0x3D"
proof
  assume "base64_char n = 0x3D"
  then have "base64_index (0x3D :: 16 word) = Some (n mod 64)"
    using base64_index_char [of n] by simp
  then show False by (simp add: base64_index_def)
qed

lemma base64_char_not_whitespace: "\<not> is_ascii_whitespace (base64_char n)"
proof
  assume "is_ascii_whitespace (base64_char n)"
  then have "base64_index (base64_char n) = None"
    unfolding is_ascii_whitespace_def by (auto simp: base64_index_def)
  then show False by (simp add: base64_index_char)
qed

lemma padding_cases: "padding bs = [] \<or> padding bs = [0x3D] \<or> padding bs = [0x3D, 0x3D]"
  by (induction bs rule: padding.induct) simp_all

lemma encode_length: "length (base64_encode bs) mod 4 = 0"
  by (induction bs rule: base64_encode.induct) simp_all

lemma sextets_length: "length (sextets bs) mod 4 \<noteq> 1"
  by (induction bs rule: sextets.induct) simp_all

lemma split_div:
  fixes q r k :: nat
  assumes "r < k"
  shows "(q * k + r) div k = q" and "(q * k + r) mod k = r"
  using assms by simp_all

lemma sextet_facts:
  fixes a b c :: nat
  assumes "b < 256" and "c < 256"
  shows "a div 4 * 4 + ((a mod 4) * 16 + b div 16) div 16 = a"
    and "((a mod 4) * 16 + b div 16) mod 16 * 16 + ((b mod 16) * 4 + c div 64) div 4 = b"
    and "((b mod 16) * 4 + c div 64) mod 4 * 64 + c mod 64 = c"
    and "((a mod 4) * 16 + b div 16) mod 16 * 16 + (b mod 16) * 4 div 4 = b"
    and "a div 4 * 4 + (a mod 4) * 16 div 16 = a"
proof -
  have b: "b div 16 < 16" using assms(1) by (simp add: less_mult_imp_div_less)
  have c: "c div 64 < 4" using assms(2) by (simp add: less_mult_imp_div_less)
  show "a div 4 * 4 + ((a mod 4) * 16 + b div 16) div 16 = a"
    unfolding split_div(1) [OF b] by simp
  show "((a mod 4) * 16 + b div 16) mod 16 * 16 + ((b mod 16) * 4 + c div 64) div 4 = b"
    unfolding split_div(2) [OF b] split_div(1) [OF c] by simp
  show "((b mod 16) * 4 + c div 64) mod 4 * 64 + c mod 64 = c"
    unfolding split_div(2) [OF c] by simp
  show "((a mod 4) * 16 + b div 16) mod 16 * 16 + (b mod 16) * 4 div 4 = b"
    unfolding split_div(2) [OF b] by simp
  show "a div 4 * 4 + (a mod 4) * 16 div 16 = a"
    by simp
qed

lemma sextet_bounds:
  fixes a b c :: nat
  assumes "a < 256" and "b < 256" and "c < 256"
  shows "a div 4 < 64" and "(a mod 4) * 16 + b div 16 < 64" and "(b mod 16) * 4 + c div 64 < 64"
    and "(b mod 16) * 4 < 64" and "(a mod 4) * 16 < 64" and "c mod 64 < 64"
proof -
  have b: "b div 16 < 16" using assms(2) by (simp add: less_mult_imp_div_less)
  have c: "c div 64 < 4" using assms(3) by (simp add: less_mult_imp_div_less)
  have a4: "a mod 4 < 4" and b16: "b mod 16 < 16" by simp_all
  show "a div 4 < 64" using assms(1) by (simp add: less_mult_imp_div_less)
  show "(a mod 4) * 16 + b div 16 < 64" using a4 b by linarith
  show "(b mod 16) * 4 + c div 64 < 64" using b16 c by linarith
  show "(b mod 16) * 4 < 64" using b16 by linarith
  show "(a mod 4) * 16 < 64" using a4 by linarith
  show "c mod 64 < 64" by simp
qed

lemma sextets_range: "\<forall>b \<in> set bs. b < 256 \<Longrightarrow> \<forall>x \<in> set (sextets bs). x < 64"
proof (induction bs rule: sextets.induct)
  case (1 a b c rest)
  then have "a < 256" "b < 256" "c < 256" by simp_all
  from sextet_bounds [OF this] 1 show ?case by simp
next
  case (2 a b)
  then have "a < 256" "b < 256" by simp_all
  from sextet_bounds [OF this this(2)] show ?case by simp
next
  case (3 a)
  then have "a < 256" by simp
  from sextet_bounds [OF this this this] show ?case by simp
next
  case 4
  then show ?case by simp
qed

lemma decode_sextets: "\<forall>b \<in> set bs. b < 256 \<Longrightarrow> base64_decode (sextets bs) = bs"
proof (induction bs rule: sextets.induct)
  case (1 a b c rest)
  then have "b < 256" "c < 256" by simp_all
  from sextet_facts(1-3) [OF this] 1 show ?case by simp
next
  case (2 a b)
  then have "b < 256" by simp
  from sextet_facts(1,4) [OF this this] show ?case by simp
next
  case (3 a)
  from sextet_facts(5) [of 0 0 a] show ?case by simp
next
  case 4
  then show ?case by simp
qed

lemma strip_padding_body:
  assumes "length (xs @ pad) mod 4 = 0" and "0x3D \<notin> set xs"
    and "pad = [] \<or> pad = [0x3D] \<or> pad = [0x3D, 0x3D]"
  shows "strip_padding (xs @ pad) = xs"
proof (cases xs rule: rev_cases)
  case Nil
  with assms show ?thesis by (auto simp: strip_padding_def)
next
  case (snoc ys y)
  with assms(2) have y: "y \<noteq> 0x3D" by simp
  from assms(3) show ?thesis
  proof (elim disjE)
    assume "pad = []"
    with snoc y show ?thesis by (simp add: strip_padding_def)
  next
    assume "pad = [0x3D]"
    with snoc y assms(1) show ?thesis by (simp add: strip_padding_def)
  next
    assume "pad = [0x3D, 0x3D]"
    with snoc assms(1) show ?thesis by (simp add: strip_padding_def)
  qed
qed

lemma map_filter_index:
  "\<forall>x \<in> set xs. x < 64 \<Longrightarrow> List.map_filter base64_index (map base64_char xs) = xs"
  by (induction xs) (simp_all add: base64_index_char)

lemma atob_btoa:
  assumes "btoa s = Inr e"
  shows "atob e = Inr s"
proof -
  from assms have latin1: "\<forall>c \<in> set s. c \<le> 0xFF"
    and e: "e = base64_encode (map unat s)"
    by (auto simp: btoa_def not_less split: if_splits)
  define bs where "bs = map unat s"
  have bytes: "\<forall>b \<in> set bs. b < 256"
    unfolding bs_def using latin1 by (auto simp: word_le_nat_alt)
  have split: "e = map base64_char (sextets bs) @ padding bs"
    unfolding e bs_def by (rule encode_split)
  have "\<not> is_ascii_whitespace c" if "c \<in> set (padding bs)" for c
    using that padding_cases [of bs] by (auto simp: is_ascii_whitespace_def)
  then have "filter (\<lambda>c. \<not> is_ascii_whitespace c) e = e"
    unfolding split by (auto simp: filter_id_conv base64_char_not_whitespace)
  moreover have "strip_padding e = map base64_char (sextets bs)"
    unfolding split
  proof (rule strip_padding_body)
    show "length (map base64_char (sextets bs) @ padding bs) mod 4 = 0"
      using encode_length [of bs] unfolding encode_split .
    show "0x3D \<notin> set (map base64_char (sextets bs))"
      using base64_char_not_padding by auto
    show "padding bs = [] \<or> padding bs = [0x3D] \<or> padding bs = [0x3D, 0x3D]"
      by (rule padding_cases)
  qed
  moreover have "length (map base64_char (sextets bs)) mod 4 \<noteq> 1"
    using sextets_length [of bs] by simp
  moreover have "\<not> (\<exists>c \<in> set (map base64_char (sextets bs)). base64_index c = None)"
    by (auto simp: base64_index_char)
  moreover have "List.map_filter base64_index (map base64_char (sextets bs)) = sextets bs"
    using sextets_range [OF bytes] by (rule map_filter_index)
  moreover have "map of_nat (base64_decode (sextets bs)) = s"
    by (simp add: decode_sextets [OF bytes]) (simp add: bs_def comp_def map_idI)
  ultimately show ?thesis
    by (simp add: atob_def Let_def)
qed

text \<open>
  C7: the content field is meant to carry the serialised request in Base64, so that
  decoding and parsing it gives the request back.  For a song whose title is the
  character U+66F2 the code does not get that far: \<open>JSON.stringify\<close> leaves the character
  as it is, \<open>btoa\<close> throws an \<open>InvalidCharacterError\<close> on it, and \<open>sendNowPlaying\<close> is
  rejected before any request is sent, so there is no content field to decode.
\<close>

theorem sendNowPlaying_non_latin1_rejected:
  "sendNowPlaying example_scrobbler always_200 1700000000000 example_song =
     (Inl InvalidCharacterError,
      [Dispatch \<lparr>eventName = str ''nowplaying'', time = 1700000000000,
         data = \<lparr>song = example_song, songs = None, isLoved = None,
                 currentlyPlaying = None\<rparr>\<rparr>,
       DebugLog (str ''GitHub - sendRequest: ''
         @ ToString_opt (JSON_stringify_2 (request_value
             \<lparr>eventName = str ''nowplaying'', time = 1700000000000,
              data = \<lparr>song = example_song, songs = None, isLoved = None,
                      currentlyPlaying = None\<rparr>\<rparr>))) None])
   \<and> requestBody \<lparr>eventName = str ''nowplaying'', time = 1700000000000,
         data = \<lparr>song = example_song, songs = None, isLoved = None,
                 currentlyPlaying = None\<rparr>\<rparr> = Inl InvalidCharacterError
   \<and> 0x66F2 \<in> set (ToString_opt (JSON_stringify (request_value
         \<lparr>eventName = str ''nowplaying'', time = 1700000000000,
          data = \<lparr>song = example_song, songs = None, isLoved = None,
                  currentlyPlaying = None\<rparr>\<rparr>)))"
  by (simp add: sendNowPlaying_def example_scrobbler_def example_song_def sendRequest_def
      requestInfo_def requestBody_def btoa_def request_value_def data_value_def
      JSON_stringify_def ToString_opt_def wrap_partial_def QuoteJSONString_def
      is_leading_surrogate_def is_trailing_surrogate_def Number_toString_def Number_digits_def isFinite_def decimal.simps
      digit_def str_def)

end
